theory Spec2Isabelle
  imports Complex_Main
begin

section \<open>The synthetic disk-image generator of tutorials/segmentation.ipynb\<close>

text \<open>
  The class \<^verbatim>\<open>Data_Generator\<close> of the notebook is embedded as a record (the instance
  attributes), a constructor and the method \<^verbatim>\<open>generate\<close>. Python floats are idealised
  as real numbers. The calls into \<^verbatim>\<open>np.random\<close> are the only source of
  nondeterminism; the values they return are an explicit argument of \<^verbatim>\<open>generate\<close>.
  Exceptions are values of a sum type. Memory is taken to be unbounded: the
  \<^verbatim>\<open>MemoryError\<close> of an allocation that the host cannot serve is not modelled.
\<close>

subsection \<open>numpy arrays of rank two\<close>

text \<open>
  The Python exceptions that the numpy calls of the class raise.
\<close>

datatype error = ValueError | IndexError

text \<open>
  A two-dimensional array carries its shape and its rows; keeping the shape apart from the
  rows distinguishes the empty shapes \<open>(0, k)\<close>.
\<close>

datatype 'a ndarray = NDArray (nrows: nat) (ncols: nat) (cells: "'a list list")

definition shape :: "'a ndarray \<Rightarrow> nat \<times> nat" where
  "shape a = (nrows a, ncols a)"

text \<open>The entry \<^verbatim>\<open>a[i, j]\<close>, for \<open>i\<close>, \<open>j\<close> inside the shape.\<close>

definition entry :: "'a ndarray \<Rightarrow> nat \<Rightarrow> nat \<Rightarrow> 'a" where
  "entry a i j = cells a ! i ! j"

definition well_shaped :: "'a ndarray \<Rightarrow> bool" where
  "well_shaped a \<longleftrightarrow> length (cells a) = nrows a \<and> (\<forall>row \<in> set (cells a). length row = ncols a)"

text \<open>
  The largest value of numpy's index type \<^verbatim>\<open>npy_intp\<close>, a signed 64-bit integer on the
  64-bit hosts that the notebook is run on.
\<close>

definition npy_max_intp :: int where
  "npy_max_intp = 2 ^ 63 - 1"

text \<open>
  The size check that numpy makes when it creates an array: the loop over the dimensions
  skips a dimension 0, raises \<^verbatim>\<open>ValueError\<close> for a negative dimension, and raises
  \<^verbatim>\<open>ValueError\<close> when the item size multiplied by the dimensions seen so far exceeds
  \<^verbatim>\<open>npy_intp\<close>.
\<close>

fun array_nbytes :: "int \<Rightarrow> int list \<Rightarrow> error + int" where
  "array_nbytes nbytes [] = Inr nbytes"
| "array_nbytes nbytes (d # ds) =
     (if d = 0 then array_nbytes nbytes ds
      else if d < 0 then Inl ValueError
      else if npy_max_intp < nbytes * d then Inl ValueError
      else array_nbytes (nbytes * d) ds)"

text \<open>
  \<^verbatim>\<open>np.zeros((m, n))\<close>, an array of \<^verbatim>\<open>float64\<close> (8 bytes an item): a dimension that
  does not fit \<^verbatim>\<open>npy_intp\<close> raises \<^verbatim>\<open>ValueError\<close>, and so does the size check.
\<close>

definition np_zeros :: "int \<times> int \<Rightarrow> error + real ndarray" where
  "np_zeros sz = (case sz of (m, n) \<Rightarrow>
     if m < - npy_max_intp - 1 \<or> npy_max_intp < m \<or> n < - npy_max_intp - 1 \<or> npy_max_intp < n
     then Inl ValueError
     else (case array_nbytes 8 [m, n] of
             Inl e \<Rightarrow> Inl e
           | Inr nbytes \<Rightarrow> Inr (NDArray (nat m) (nat n) (replicate (nat m) (replicate (nat n) 0)))))"

text \<open>
  \<^verbatim>\<open>np.linspace(start, stop, num)\<close>: \<open>num\<close> evenly spaced samples from \<open>start\<close> to
  \<open>stop\<close>, both included; a single sample is \<open>start\<close>.
\<close>

definition np_linspace :: "real \<Rightarrow> real \<Rightarrow> nat \<Rightarrow> real list" where
  "np_linspace start stop num =
     map (\<lambda>k. if num \<le> 1 then start
               else start + real k * ((stop - start) / real (num - 1))) [0..<num]"

text \<open>
  \<^verbatim>\<open>np.meshgrid(x, y)\<close> with the default indexing \<^verbatim>\<open>'xy'\<close>: both results have shape
  \<open>(len(y), len(x))\<close>, with \<open>xx[i, j] = x[j]\<close> and \<open>yy[i, j] = y[i]\<close>.
\<close>

definition np_meshgrid :: "real list \<Rightarrow> real list \<Rightarrow> real ndarray \<times> real ndarray" where
  "np_meshgrid x y =
     (NDArray (length y) (length x) (map (\<lambda>yi. x) y),
      NDArray (length y) (length x) (map (\<lambda>yi. map (\<lambda>xj. yi) x) y))"

text \<open>Elementwise operations on one array and on two arrays of one shape.\<close>

definition amap :: "('a \<Rightarrow> 'b) \<Rightarrow> 'a ndarray \<Rightarrow> 'b ndarray" where
  "amap f a = NDArray (nrows a) (ncols a) (map (map f) (cells a))"

definition azip :: "('a \<Rightarrow> 'b \<Rightarrow> 'c) \<Rightarrow> 'a ndarray \<Rightarrow> 'b ndarray \<Rightarrow> 'c ndarray" where
  "azip f a b = NDArray (nrows a) (ncols a)
     (map (\<lambda>(ra, rb). map (\<lambda>(p, q). f p q) (zip ra rb)) (zip (cells a) (cells b)))"

text \<open>
  \<^verbatim>\<open>a + b\<close> as the class uses it, on two arrays of the same shape; arrays of different
  shapes that do not broadcast raise \<^verbatim>\<open>ValueError\<close> (broadcasting between different
  shapes is not modelled: the class only adds arrays of shape \<open>(nx, ny)\<close>).
\<close>

definition np_add :: "real ndarray \<Rightarrow> real ndarray \<Rightarrow> error + real ndarray" where
  "np_add a b = (if shape a = shape b then Inr (azip (+) a b) else Inl ValueError)"

text \<open>\<^verbatim>\<open>np.clip(a, lo, hi)\<close>, that is \<^verbatim>\<open>minimum(maximum(a, lo), hi)\<close>.\<close>

definition np_clip :: "real ndarray \<Rightarrow> real \<Rightarrow> real \<Rightarrow> real ndarray" where
  "np_clip a lo hi = amap (\<lambda>p. min (max p lo) hi) a"

text \<open>
  \<^verbatim>\<open>a[mask] = v\<close> with a boolean array \<open>mask\<close> of rank two: numpy raises
  \<^verbatim>\<open>IndexError\<close> when the shape of the mask differs from the shape of \<open>a\<close>, and
  otherwise stores \<open>v\<close> exactly at the entries where the mask holds.
\<close>

definition setitem_mask :: "real ndarray \<Rightarrow> bool ndarray \<Rightarrow> real \<Rightarrow> error + real ndarray" where
  "setitem_mask a msk v =
     (if shape msk \<noteq> shape a then Inl IndexError
      else Inr (azip (\<lambda>p b. if b then v else p) a msk))"

subsection \<open>The class\<close>

text \<open>The arguments of the constructor.\<close>

record config =
  c_size :: "int \<times> int"
  theta :: real
  rmean :: real
  rstd :: real
  vmin :: real
  vmax :: real
  sigma :: real

text \<open>
  The attributes of an instance. \<^verbatim>\<open>nx\<close> and \<^verbatim>\<open>ny\<close> are natural numbers: an instance
  exists only when both calls of \<^verbatim>\<open>np.zeros\<close> in the constructor returned, which
  excludes negative values. \<^verbatim>\<open>ndisks\<close> is absent until the first call of
  \<^verbatim>\<open>generate\<close>.
\<close>

record data_generator =
  g_nx :: nat
  g_ny :: nat
  g_theta :: real
  g_rmean :: real
  g_rstd :: real
  g_vmin :: real
  g_vmax :: real
  g_sigma :: real
  img :: "real ndarray"
  img_truth :: "real ndarray"
  ndisks :: "nat option"

text \<open>
  \<^verbatim>\<open>Data_Generator.__init__\<close>: stores the arguments without looking at them and
  allocates the two grids.
\<close>

definition Data_Generator :: "config \<Rightarrow> error + data_generator" where
  "Data_Generator c =
     (case np_zeros (c_size c) of Inl e \<Rightarrow> Inl e
      | Inr z1 \<Rightarrow>
     (case np_zeros (c_size c) of Inl e \<Rightarrow> Inl e
      | Inr z2 \<Rightarrow>
        Inr \<lparr>g_nx = nat (fst (c_size c)), g_ny = nat (snd (c_size c)), g_theta = theta c,
             g_rmean = rmean c, g_rstd = rstd c, g_vmin = vmin c, g_vmax = vmax c,
             g_sigma = sigma c, img = z1, img_truth = z2, ndisks = None\<rparr>))"

text \<open>
  The values one call of \<^verbatim>\<open>generate\<close> obtains from \<^verbatim>\<open>np.random\<close>, in the order of the
  calls: the Poisson count, for the \<open>n\<close>-th iteration of the loop the quadruple
  \<open>(xc, yc, r, v)\<close>, and the entry \<open>(i, j)\<close> of \<^verbatim>\<open>randn(nx, ny)\<close>.
\<close>

record draws =
  d_poisson :: nat
  d_disk :: "nat \<Rightarrow> real \<times> real \<times> real \<times> real"
  d_randn :: "nat \<Rightarrow> nat \<Rightarrow> real"

definition np_random_randn :: "draws \<Rightarrow> nat \<Rightarrow> nat \<Rightarrow> real ndarray" where
  "np_random_randn d m n = NDArray m n (map (\<lambda>i. map (\<lambda>j. d_randn d i j) [0..<n]) [0..<m])"

text \<open>
  The boolean array
  \<^verbatim>\<open>np.power(xx - xc, 2) + np.power(yy - yc, 2) - r**2 < 0\<close>.
\<close>

definition disk_mask :: "real ndarray \<Rightarrow> real ndarray \<Rightarrow> real \<Rightarrow> real \<Rightarrow> real \<Rightarrow> bool ndarray" where
  "disk_mask xx yy xc yc r = azip (\<lambda>p q. (p - xc)\<^sup>2 + (q - yc)\<^sup>2 - r\<^sup>2 < 0) xx yy"

text \<open>
  One iteration of the loop over the disks. \<^verbatim>\<open>np.random.normal\<close> raises
  \<^verbatim>\<open>ValueError\<close> for a negative scale. The result is the exception raised, if any, and
  the instance as the iteration leaves it.
\<close>

definition draw_disk ::
  "real ndarray \<Rightarrow> real ndarray \<Rightarrow> data_generator \<Rightarrow> real \<times> real \<times> real \<times> real
     \<Rightarrow> error option \<times> data_generator" where
  "draw_disk xx yy g dk = (case dk of (xc, yc, r, v) \<Rightarrow>
     if g_rstd g < 0 then (Some ValueError, g)
     else let msk = disk_mask xx yy xc yc r in
       (case setitem_mask (img g) msk v of
          Inl e \<Rightarrow> (Some e, g)
        | Inr i' \<Rightarrow>
            let g1 = g\<lparr>img := i'\<rparr> in
            (case setitem_mask (img_truth g1) msk 1 of
               Inl e \<Rightarrow> (Some e, g1)
             | Inr t' \<Rightarrow> (None, g1\<lparr>img_truth := t'\<rparr>))))"

text \<open>The loop \<^verbatim>\<open>for n in range(self.ndisks)\<close>, over the draws of its iterations.\<close>

fun disks_loop ::
  "real ndarray \<Rightarrow> real ndarray \<Rightarrow> data_generator \<Rightarrow> (real \<times> real \<times> real \<times> real) list
     \<Rightarrow> error option \<times> data_generator" where
  "disks_loop xx yy g [] = (None, g)"
| "disks_loop xx yy g (dk # dks) =
     (case draw_disk xx yy g dk of
        (Some e, g') \<Rightarrow> (Some e, g')
      | (None, g') \<Rightarrow> disks_loop xx yy g' dks)"

text \<open>
  The first three statements of \<^verbatim>\<open>generate\<close>:
  \<^verbatim>\<open>x = np.linspace(0, nx-1, nx); y = np.linspace(0, ny-1, ny); xx, yy = np.meshgrid(x, y)\<close>.
\<close>

definition pixel_coords :: "nat \<Rightarrow> nat \<Rightarrow> real ndarray \<times> real ndarray" where
  "pixel_coords nx ny =
     (let x = np_linspace 0 (real nx - 1) nx;
          y = np_linspace 0 (real ny - 1) ny
      in np_meshgrid x y)"

text \<open>
  \<^verbatim>\<open>Data_Generator.generate\<close>. \<^verbatim>\<open>np.random.poisson\<close> raises \<^verbatim>\<open>ValueError\<close> for a
  negative mean. The result is the returned pair \<^verbatim>\<open>(self.img, self.img_truth)\<close> or
  the exception raised, together with the instance after the call.
\<close>

definition generate ::
  "data_generator \<Rightarrow> draws \<Rightarrow> (error + real ndarray \<times> real ndarray) \<times> data_generator" where
  "generate g d =
     (let (xx, yy) = pixel_coords (g_nx g) (g_ny g)
      in if g_theta g < 0 then (Inl ValueError, g)
         else let g1 = g\<lparr>ndisks := Some (d_poisson d)\<rparr> in
           (case disks_loop xx yy g1 (map (d_disk d) [0..<d_poisson d]) of
              (Some e, g2) \<Rightarrow> (Inl e, g2)
            | (None, g2) \<Rightarrow>
                let noise = amap (\<lambda>p. g_sigma g2 * p) (np_random_randn d (g_nx g2) (g_ny g2))
                in (case np_add (img g2) noise of
                      Inl e \<Rightarrow> (Inl e, g2)
                    | Inr s \<Rightarrow>
                        let g3 = g2\<lparr>img := np_clip s 0 255\<rparr>
                        in (Inr (img g3, img_truth g3), g3))))"

subsection \<open>Several calls, several instances\<close>

text \<open>
  Successive calls of \<^verbatim>\<open>generate\<close> on one instance: each call starts from the instance
  as the call before left it, also when that call raised. The results are the values of
  the returned arrays at the time of the return.
\<close>

fun run_calls :: "data_generator \<Rightarrow> draws list \<Rightarrow> (error + real ndarray \<times> real ndarray) list" where
  "run_calls g [] = []"
| "run_calls g (d # ds) = (case generate g d of (res, g') \<Rightarrow> res # run_calls g' ds)"

text \<open>
  Arrays are objects: an attribute of an instance holds a reference to an array, the masked
  assignments of the loop write into the referenced array, and \<^verbatim>\<open>generate\<close> returns
  references. The store below makes this explicit. It is the list of the arrays allocated
  so far, and a reference is a position in it; \<^verbatim>\<open>np.zeros\<close> and \<^verbatim>\<open>np.clip\<close> allocate
  a new array.
\<close>

type_synonym heap = "real ndarray list"

definition alloc :: "heap \<Rightarrow> real ndarray \<Rightarrow> nat \<times> heap" where
  "alloc h a = (length h, h @ [a])"

text \<open>
  The attributes of an instance, with \<^verbatim>\<open>img\<close> and \<^verbatim>\<open>img_truth\<close> as references.
\<close>

record obj =
  o_nx :: nat
  o_ny :: nat
  o_theta :: real
  o_rmean :: real
  o_rstd :: real
  o_vmin :: real
  o_vmax :: real
  o_sigma :: real
  o_img :: nat
  o_img_truth :: nat
  o_ndisks :: "nat option"

text \<open>The constructor: the two calls of \<^verbatim>\<open>np.zeros\<close> allocate two arrays.\<close>

definition Data_Generator_heap :: "config \<Rightarrow> heap \<Rightarrow> error + obj \<times> heap" where
  "Data_Generator_heap c h =
     (case np_zeros (c_size c) of Inl e \<Rightarrow> Inl e
      | Inr z1 \<Rightarrow>
     (case alloc h z1 of (p1, h1) \<Rightarrow>
     (case np_zeros (c_size c) of Inl e \<Rightarrow> Inl e
      | Inr z2 \<Rightarrow>
     (case alloc h1 z2 of (p2, h2) \<Rightarrow>
        Inr (\<lparr>o_nx = nat (fst (c_size c)), o_ny = nat (snd (c_size c)), o_theta = theta c,
              o_rmean = rmean c, o_rstd = rstd c, o_vmin = vmin c, o_vmax = vmax c,
              o_sigma = sigma c, o_img = p1, o_img_truth = p2, o_ndisks = None\<rparr>, h2)))))"

text \<open>
  One iteration of the loop: \<^verbatim>\<open>self.img[mask] = v\<close> and \<^verbatim>\<open>self.img_truth[mask] = 1\<close>
  write into the arrays that the two attributes refer to.
\<close>

definition draw_disk_heap ::
  "real ndarray \<Rightarrow> real ndarray \<Rightarrow> obj \<Rightarrow> heap \<Rightarrow> real \<times> real \<times> real \<times> real
     \<Rightarrow> error option \<times> heap" where
  "draw_disk_heap xx yy ob h dk = (case dk of (xc, yc, r, v) \<Rightarrow>
     if o_rstd ob < 0 then (Some ValueError, h)
     else let msk = disk_mask xx yy xc yc r in
       (case setitem_mask (h ! o_img ob) msk v of
          Inl e \<Rightarrow> (Some e, h)
        | Inr i' \<Rightarrow>
            let h1 = h[o_img ob := i'] in
            (case setitem_mask (h1 ! o_img_truth ob) msk 1 of
               Inl e \<Rightarrow> (Some e, h1)
             | Inr t' \<Rightarrow> (None, h1[o_img_truth ob := t']))))"

fun disks_loop_heap ::
  "real ndarray \<Rightarrow> real ndarray \<Rightarrow> obj \<Rightarrow> heap \<Rightarrow> (real \<times> real \<times> real \<times> real) list
     \<Rightarrow> error option \<times> heap" where
  "disks_loop_heap xx yy ob h [] = (None, h)"
| "disks_loop_heap xx yy ob h (dk # dks) =
     (case draw_disk_heap xx yy ob h dk of
        (Some e, h') \<Rightarrow> (Some e, h')
      | (None, h') \<Rightarrow> disks_loop_heap xx yy ob h' dks)"

text \<open>
  \<^verbatim>\<open>generate\<close>: the loop writes in place; \<^verbatim>\<open>np.clip(self.img + noise, 0, 255)\<close> is a
  new array, to which \<^verbatim>\<open>self.img\<close> is bound; the result is the pair of the references
  held by \<^verbatim>\<open>self.img\<close> and \<^verbatim>\<open>self.img_truth\<close>.
\<close>

definition generate_heap ::
  "obj \<Rightarrow> draws \<Rightarrow> heap \<Rightarrow> (error + nat \<times> nat) \<times> obj \<times> heap" where
  "generate_heap ob d h =
     (let (xx, yy) = pixel_coords (o_nx ob) (o_ny ob)
      in if o_theta ob < 0 then (Inl ValueError, ob, h)
         else let o1 = ob\<lparr>o_ndisks := Some (d_poisson d)\<rparr> in
           (case disks_loop_heap xx yy o1 h (map (d_disk d) [0..<d_poisson d]) of
              (Some e, h2) \<Rightarrow> (Inl e, o1, h2)
            | (None, h2) \<Rightarrow>
                let noise = amap (\<lambda>p. o_sigma o1 * p) (np_random_randn d (o_nx o1) (o_ny o1))
                in (case np_add (h2 ! o_img o1) noise of
                      Inl e \<Rightarrow> (Inl e, o1, h2)
                    | Inr s \<Rightarrow>
                        (case alloc h2 (np_clip s 0 255) of (p, h3) \<Rightarrow>
                           let o3 = o1\<lparr>o_img := p\<rparr>
                           in (Inr (o_img o3, o_img_truth o3), o3, h3)))))"

text \<open>The arrays that a returned pair of references denotes when the call returns.\<close>

definition deref :: "heap \<Rightarrow> error + nat \<times> nat \<Rightarrow> error + real ndarray \<times> real ndarray" where
  "deref h res = (case res of Inl e \<Rightarrow> Inl e | Inr (p, q) \<Rightarrow> Inr (h ! p, h ! q))"

text \<open>
  Two instances in one program, on one store. A schedule lists the calls of
  \<^verbatim>\<open>generate\<close> in the order in which the program makes them, each with the instance it
  addresses and with the values that \<^verbatim>\<open>np.random\<close> returns during it.
\<close>

datatype instance_id = First | Second

fun run_two_heap ::
  "obj \<times> obj \<Rightarrow> heap \<Rightarrow> (instance_id \<times> draws) list
     \<Rightarrow> (instance_id \<times> (error + real ndarray \<times> real ndarray)) list" where
  "run_two_heap (a, b) h [] = []"
| "run_two_heap (a, b) h ((First, d) # s) =
     (case generate_heap a d h of
        (res, a', h') \<Rightarrow> (First, deref h' res) # run_two_heap (a', b) h' s)"
| "run_two_heap (a, b) h ((Second, d) # s) =
     (case generate_heap b d h of
        (res, b', h') \<Rightarrow> (Second, deref h' res) # run_two_heap (a, b') h' s)"

text \<open>The entries of a schedule, or of its results, that belong to one instance.\<close>

definition calls_on :: "instance_id \<Rightarrow> (instance_id \<times> 'a) list \<Rightarrow> 'a list" where
  "calls_on w s = map snd (filter (\<lambda>c. fst c = w) s)"

subsection \<open>Notions used to state the properties\<close>

text \<open>
  The invariant of an instance: both grids are rectangular and of shape \<open>(nx, ny)\<close>. The
  constructor establishes it and \<^verbatim>\<open>generate\<close> keeps it.
\<close>

definition consistent :: "data_generator \<Rightarrow> bool" where
  "consistent g \<longleftrightarrow>
     well_shaped (img g) \<and> well_shaped (img_truth g) \<and>
     shape (img g) = (g_nx g, g_ny g) \<and> shape (img_truth g) = (g_nx g, g_ny g)"

text \<open>
  The instance that an object denotes in a store: its attributes, with the two references
  replaced by the arrays they refer to.
\<close>

definition view :: "heap \<Rightarrow> obj \<Rightarrow> data_generator" where
  "view h ob =
     \<lparr>g_nx = o_nx ob, g_ny = o_ny ob, g_theta = o_theta ob, g_rmean = o_rmean ob,
      g_rstd = o_rstd ob, g_vmin = o_vmin ob, g_vmax = o_vmax ob, g_sigma = o_sigma ob,
      img = h ! o_img ob, img_truth = h ! o_img_truth ob, ndisks = o_ndisks ob\<rparr>"

text \<open>
  The references of an object are allocated and differ; the references of two objects are
  allocated and all differ.
\<close>

definition owned :: "obj \<Rightarrow> heap \<Rightarrow> bool" where
  "owned ob h \<longleftrightarrow> o_img ob < length h \<and> o_img_truth ob < length h \<and> o_img ob \<noteq> o_img_truth ob"

definition separate :: "obj \<Rightarrow> obj \<Rightarrow> heap \<Rightarrow> bool" where
  "separate a b h \<longleftrightarrow>
     owned a h \<and> owned b h \<and>
     o_img a \<noteq> o_img b \<and> o_img a \<noteq> o_img_truth b \<and>
     o_img_truth a \<noteq> o_img b \<and> o_img_truth a \<noteq> o_img_truth b"

text \<open>
  The pixel with coordinates \<open>x = j\<close>, \<open>y = i\<close> lies strictly inside the disc of the
  drawn quadruple \<open>(xc, yc, r, v)\<close>.
\<close>

definition in_disk :: "real \<times> real \<times> real \<times> real \<Rightarrow> nat \<Rightarrow> nat \<Rightarrow> bool" where
  "in_disk dk i j = (case dk of (xc, yc, r, v) \<Rightarrow> (real j - xc)\<^sup>2 + (real i - yc)\<^sup>2 < r\<^sup>2)"

definition gray :: "real \<times> real \<times> real \<times> real \<Rightarrow> real" where
  "gray dk = (case dk of (xc, yc, r, v) \<Rightarrow> v)"

text \<open>
  The gray level of a pixel after a sequence of disks, starting from the level \<open>p\<close>: the
  level of the last disk of the sequence that contains the pixel, and \<open>p\<close> when there is none.
\<close>

definition painted :: "(real \<times> real \<times> real \<times> real) list \<Rightarrow> nat \<Rightarrow> nat \<Rightarrow> real \<Rightarrow> real" where
  "painted dks i j p = foldl (\<lambda>q dk. if in_disk dk i j then gray dk else q) p dks"

text \<open>
  The constraints that the specification puts on a configuration
  (\<open>nx, ny \<ge> 1\<close>, \<open>theta > 0\<close>, \<open>vmin \<le> vmax\<close>, \<open>sigma \<ge> 0\<close>); the constructor does not
  use them.
\<close>

definition spec_valid :: "config \<Rightarrow> bool" where
  "spec_valid c \<longleftrightarrow>
     1 \<le> fst (c_size c) \<and> 1 \<le> snd (c_size c) \<and> 0 < theta c \<and> vmin c \<le> vmax c \<and> 0 \<le> sigma c"

subsection \<open>Concrete inputs\<close>

text \<open>
  The parameters of the notebook's own call of the constructor, with the size and the
  noise level left open.
\<close>

definition notebook_config :: "int \<times> int \<Rightarrow> real \<Rightarrow> config" where
  "notebook_config sz s =
     \<lparr>c_size = sz, theta = 5, rmean = 4, rstd = 1 / 2, vmin = 15, vmax = 200, sigma = s\<rparr>"

text \<open>
  The draws of a call in which \<^verbatim>\<open>np.random.poisson\<close> returns the length of the list
  \<open>dks\<close>, the loop draws the quadruples of \<open>dks\<close> in turn and every entry of
  \<^verbatim>\<open>randn\<close> is \<open>z\<close>.
\<close>

definition draws_of :: "(real \<times> real \<times> real \<times> real) list \<Rightarrow> real \<Rightarrow> draws" where
  "draws_of dks z = \<lparr>d_poisson = length dks, d_disk = (\<lambda>n. dks ! n), d_randn = (\<lambda>i j. z)\<rparr>"

text \<open>The instance that the constructor returns, for a configuration it accepts.\<close>

definition fresh :: "config \<Rightarrow> data_generator" where
  "fresh c = (case Data_Generator c of Inr g \<Rightarrow> g)"

section \<open>Properties\<close>

subsection \<open>Arrays\<close>


lemma np_zeros_eq:
  "np_zeros (m, n) =
     (if m < 0 \<or> n < 0 \<or> npy_max_intp < 8 * max m 1 * max n 1 then Inl ValueError
      else Inr (NDArray (nat m) (nat n) (replicate (nat m) (replicate (nat n) 0))))"
proof -
  have pos: "8 \<le> npy_max_intp" by (simp add: npy_max_intp_def)
  consider "m < 0 \<or> n < 0" | "m = 0" "0 \<le> n" | "0 < m" "n = 0" | "0 < m" "0 < n"
    by linarith
  then show ?thesis
  proof cases
    case 1
    then show ?thesis using pos by (auto simp add: np_zeros_def)
  next
    case 2
    then show ?thesis using pos by (auto simp add: np_zeros_def)
  next
    case 3
    then show ?thesis using pos by (auto simp add: np_zeros_def)
  next
    case 4
    define p where "p = 8 * m * n"
    have a: "8 * m \<le> p" using 4 by (simp add: p_def)
    have b: "n \<le> p"
    proof -
      have "1 * n \<le> (8 * m) * n" using 4 by (intro mult_right_mono) simp_all
      then show ?thesis by (simp add: p_def)
    qed
    have c: "m \<le> p" using a 4 by linarith
    have mx: "max m 1 = m" "max n 1 = n" using 4 by simp_all
    have "np_zeros (m, n) =
      (if npy_max_intp < p then Inl ValueError
       else Inr (NDArray (nat m) (nat n) (replicate (nat m) (replicate (nat n) 0))))"
      using 4 a b c pos by (auto simp add: np_zeros_def p_def [symmetric])
    then show ?thesis
      using 4 by (simp add: mx p_def)
  qed
qed

lemma length_np_linspace [simp]: "length (np_linspace a b n) = n"
  by (simp add: np_linspace_def)

lemma nth_np_linspace: "k < n \<Longrightarrow> np_linspace 0 (real n - 1) n ! k = real k"
  by (auto simp add: np_linspace_def of_nat_diff)

lemma shape_azip [simp]: "shape (azip f a b) = shape a"
  by (simp add: shape_def azip_def)

lemma shape_amap [simp]: "shape (amap f a) = shape a"
  by (simp add: shape_def amap_def)

lemma well_shaped_azip:
  "well_shaped a \<Longrightarrow> well_shaped b \<Longrightarrow> shape a = shape b \<Longrightarrow> well_shaped (azip f a b)"
  by (auto simp add: well_shaped_def shape_def azip_def in_set_zip)

lemma well_shaped_amap: "well_shaped a \<Longrightarrow> well_shaped (amap f a)"
  by (auto simp add: well_shaped_def amap_def)

lemma row_length: "well_shaped a \<Longrightarrow> i < nrows a \<Longrightarrow> length (cells a ! i) = ncols a"
  by (simp add: well_shaped_def)

lemma entry_azip:
  assumes "well_shaped a" "well_shaped b" "shape a = shape b" "i < nrows a" "j < ncols a"
  shows "entry (azip f a b) i j = f (entry a i j) (entry b i j)"
proof -
  have la: "length (cells a) = nrows a" and lb: "length (cells b) = nrows a"
    using assms by (simp_all add: well_shaped_def shape_def)
  have ra: "length (cells a ! i) = ncols a" and rb: "length (cells b ! i) = ncols a"
    using assms row_length [of a i] row_length [of b i] by (simp_all add: shape_def)
  show ?thesis
    using assms(4,5) by (simp add: entry_def azip_def la lb ra rb)
qed

lemma entry_amap:
  assumes "well_shaped a" "i < nrows a" "j < ncols a"
  shows "entry (amap f a) i j = f (entry a i j)"
  using assms row_length [of a i] by (simp add: entry_def amap_def well_shaped_def)

lemma pixel_coords_shape:
  "shape (fst (pixel_coords nx ny)) = (ny, nx)" "shape (snd (pixel_coords nx ny)) = (ny, nx)"
  "well_shaped (fst (pixel_coords nx ny))" "well_shaped (snd (pixel_coords nx ny))"
  by (auto simp add: pixel_coords_def np_meshgrid_def shape_def well_shaped_def Let_def)

lemma pixel_coords_entry:
  assumes "i < ny" "j < nx"
  shows "entry (fst (pixel_coords nx ny)) i j = real j" "entry (snd (pixel_coords nx ny)) i j = real i"
  using assms by (simp_all add: pixel_coords_def np_meshgrid_def entry_def nth_np_linspace Let_def)

subsection \<open>One disk\<close>

lemma disk_mask_shape:
  "shape (disk_mask (fst (pixel_coords nx ny)) (snd (pixel_coords nx ny)) xc yc r) = (ny, nx)"
  "well_shaped (disk_mask (fst (pixel_coords nx ny)) (snd (pixel_coords nx ny)) xc yc r)"
  by (simp_all add: disk_mask_def pixel_coords_shape well_shaped_azip)

lemma disk_mask_entry:
  assumes "i < ny" "j < nx"
  shows "entry (disk_mask (fst (pixel_coords nx ny)) (snd (pixel_coords nx ny)) xc yc r) i j
           \<longleftrightarrow> in_disk (xc, yc, r, v) i j"
proof -
  have "nrows (fst (pixel_coords nx ny)) = ny" "ncols (fst (pixel_coords nx ny)) = nx"
    using pixel_coords_shape(1) [of nx ny] by (simp_all add: shape_def)
  then show ?thesis
    using assms
    by (simp add: disk_mask_def entry_azip pixel_coords_shape pixel_coords_entry in_disk_def)
qed

lemma setitem_mask_ok:
  assumes "shape msk = shape a"
  shows "setitem_mask a msk v = Inr (azip (\<lambda>p b. if b then v else p) a msk)"
  using assms by (simp add: setitem_mask_def)

lemma draw_disk_square:
  assumes "consistent g" "g_nx g = g_ny g" "0 \<le> g_rstd g"
  shows "draw_disk (fst (pixel_coords (g_nx g) (g_ny g))) (snd (pixel_coords (g_nx g) (g_ny g))) g (xc, yc, r, v)
    = (None, g\<lparr>img := azip (\<lambda>p b. if b then v else p) (img g)
                  (disk_mask (fst (pixel_coords (g_nx g) (g_ny g))) (snd (pixel_coords (g_nx g) (g_ny g))) xc yc r),
               img_truth := azip (\<lambda>p b. if b then 1 else p) (img_truth g)
                  (disk_mask (fst (pixel_coords (g_nx g) (g_ny g))) (snd (pixel_coords (g_nx g) (g_ny g))) xc yc r)\<rparr>)"
  using assms
  by (simp add: draw_disk_def consistent_def disk_mask_shape setitem_mask_ok Let_def)

lemma draw_disk_square_props:
  assumes c: "consistent g" and sq: "g_nx g = g_ny g" and rs: "0 \<le> g_rstd g"
    and xx: "xx = fst (pixel_coords (g_nx g) (g_ny g))" and yy: "yy = snd (pixel_coords (g_nx g) (g_ny g))"
  shows "\<exists>g'. draw_disk xx yy g dk = (None, g') \<and> consistent g' \<and>
           g_nx g' = g_nx g \<and> g_ny g' = g_ny g \<and> g_rstd g' = g_rstd g \<and>
           g_sigma g' = g_sigma g \<and> g_theta g' = g_theta g \<and> ndisks g' = ndisks g \<and>
           (\<forall>i < g_ny g. \<forall>j < g_nx g.
              entry (img_truth g' ) i j = (if in_disk dk i j then 1 else entry (img_truth g) i j) \<and>
              entry (img g') i j = (if in_disk dk i j then gray dk else entry (img g) i j))"
proof -
  obtain xc yc r v where dk: "dk = (xc, yc, r, v)" by (cases dk) auto
  let ?m = "disk_mask xx yy xc yc r"
  let ?g = "g\<lparr>img := azip (\<lambda>p b. if b then v else p) (img g) ?m,
              img_truth := azip (\<lambda>p b. if b then 1 else p) (img_truth g) ?m\<rparr>"
  have step: "draw_disk xx yy g dk = (None, ?g)"
    unfolding dk xx yy by (rule draw_disk_square [OF c sq rs])
  have ms: "shape ?m = (g_ny g, g_nx g)" and mw: "well_shaped ?m"
    unfolding xx yy by (rule disk_mask_shape)+
  have sh: "shape (img g) = shape ?m" "shape (img_truth g) = shape ?m"
    using c sq ms by (simp_all add: consistent_def)
  have wi: "well_shaped (img g)" "well_shaped (img_truth g)"
    using c by (simp_all add: consistent_def)
  have nr: "nrows (img g) = g_ny g" "ncols (img g) = g_nx g"
    "nrows (img_truth g) = g_ny g" "ncols (img_truth g) = g_nx g"
    using c sq by (simp_all add: consistent_def shape_def)
  have cons: "consistent ?g"
    using c wi mw sh by (simp add: consistent_def well_shaped_azip)
  have ent: "\<forall>i < g_ny g. \<forall>j < g_nx g.
              entry (img_truth ?g) i j = (if in_disk dk i j then 1 else entry (img_truth g) i j) \<and>
              entry (img ?g) i j = (if in_disk dk i j then gray dk else entry (img g) i j)"
  proof (intro allI impI)
    fix i j assume ij: "i < g_ny g" "j < g_nx g"
    have m: "entry ?m i j \<longleftrightarrow> in_disk dk i j"
      unfolding xx yy dk using ij by (rule disk_mask_entry)
    show "entry (img_truth ?g) i j = (if in_disk dk i j then 1 else entry (img_truth g) i j) \<and>
          entry (img ?g) i j = (if in_disk dk i j then gray dk else entry (img g) i j)"
      using ij m by (simp add: entry_azip wi mw sh nr gray_def dk)
  qed
  show ?thesis
    using step cons ent by (intro exI [of _ ?g]) simp
qed

subsection \<open>The loop and the whole call on a square grid\<close>


lemma painted_Nil [simp]: "painted [] i j p = p"
  by (simp add: painted_def)

lemma painted_Cons [simp]:
  "painted (dk # dks) i j p = painted dks i j (if in_disk dk i j then gray dk else p)"
  by (simp add: painted_def)

lemma disks_loop_square:
  assumes "consistent g" "g_nx g = g_ny g" "0 \<le> g_rstd g"
    and "xx = fst (pixel_coords (g_nx g) (g_ny g))" "yy = snd (pixel_coords (g_nx g) (g_ny g))"
  shows "\<exists>g'. disks_loop xx yy g dks = (None, g') \<and> consistent g' \<and>
           g_nx g' = g_nx g \<and> g_ny g' = g_ny g \<and> g_rstd g' = g_rstd g \<and>
           g_sigma g' = g_sigma g \<and> g_theta g' = g_theta g \<and> ndisks g' = ndisks g \<and>
           (\<forall>i < g_ny g. \<forall>j < g_nx g.
              entry (img_truth g') i j =
                (if \<exists>dk \<in> set dks. in_disk dk i j then 1 else entry (img_truth g) i j) \<and>
              entry (img g') i j = painted dks i j (entry (img g) i j))"
  using assms
proof (induction dks arbitrary: g)
  case Nil
  then show ?case by simp
next
  case (Cons dk dks)
  from draw_disk_square_props [OF Cons.prems(1,2,3,4,5), of dk]
  obtain g1 where s1: "draw_disk xx yy g dk = (None, g1)" and c1: "consistent g1"
    and f1: "g_nx g1 = g_nx g" "g_ny g1 = g_ny g" "g_rstd g1 = g_rstd g"
            "g_sigma g1 = g_sigma g" "g_theta g1 = g_theta g" "ndisks g1 = ndisks g"
    and e1: "\<forall>i < g_ny g. \<forall>j < g_nx g.
              entry (img_truth g1) i j = (if in_disk dk i j then 1 else entry (img_truth g) i j) \<and>
              entry (img g1) i j = (if in_disk dk i j then gray dk else entry (img g) i j)"
    by blast
  have p1: "g_nx g1 = g_ny g1" "0 \<le> g_rstd g1"
    "xx = fst (pixel_coords (g_nx g1) (g_ny g1))" "yy = snd (pixel_coords (g_nx g1) (g_ny g1))"
    using Cons.prems f1 by simp_all
  from Cons.IH [OF c1 p1]
  obtain g2 where s2: "disks_loop xx yy g1 dks = (None, g2)" and c2: "consistent g2"
    and f2: "g_nx g2 = g_nx g1" "g_ny g2 = g_ny g1" "g_rstd g2 = g_rstd g1"
            "g_sigma g2 = g_sigma g1" "g_theta g2 = g_theta g1" "ndisks g2 = ndisks g1"
    and e2: "\<forall>i < g_ny g1. \<forall>j < g_nx g1.
              entry (img_truth g2) i j =
                (if \<exists>dk \<in> set dks. in_disk dk i j then 1 else entry (img_truth g1) i j) \<and>
              entry (img g2) i j = painted dks i j (entry (img g1) i j)"
    by blast
  have "disks_loop xx yy g (dk # dks) = (None, g2)"
    using s1 s2 by simp
  moreover have "\<forall>i < g_ny g. \<forall>j < g_nx g.
              entry (img_truth g2) i j =
                (if \<exists>dk \<in> set (dk # dks). in_disk dk i j then 1 else entry (img_truth g) i j) \<and>
              entry (img g2) i j = painted (dk # dks) i j (entry (img g) i j)"
    using e1 e2 f1 by simp
  ultimately show ?case
    using c2 f1 f2 by (intro exI [of _ g2]) simp
qed

lemma np_random_randn_shape:
  "shape (np_random_randn d m n) = (m, n)" "well_shaped (np_random_randn d m n)"
  by (auto simp add: np_random_randn_def shape_def well_shaped_def)

lemma np_random_randn_entry:
  "i < m \<Longrightarrow> j < n \<Longrightarrow> entry (np_random_randn d m n) i j = d_randn d i j"
  by (simp add: np_random_randn_def entry_def)

lemma noisy_clip:
  assumes "consistent g"
  shows "np_add (img g) (amap (\<lambda>p. s * p) (np_random_randn d (g_nx g) (g_ny g)))
           = Inr (azip (+) (img g) (amap (\<lambda>p. s * p) (np_random_randn d (g_nx g) (g_ny g))))"
  using assms by (simp add: np_add_def consistent_def np_random_randn_shape)

lemma noisy_clip_entry:
  assumes "consistent g" "i < g_nx g" "j < g_ny g"
  shows "entry (np_clip (azip (+) (img g) (amap (\<lambda>p. s * p) (np_random_randn d (g_nx g) (g_ny g)))) 0 255) i j
           = min (max (entry (img g) i j + s * d_randn d i j) 0) 255"
proof -
  let ?n = "np_random_randn d (g_nx g) (g_ny g)"
  have w: "well_shaped (img g)" and s: "shape (img g) = (g_nx g, g_ny g)"
    using assms(1) by (simp_all add: consistent_def)
  have nr: "nrows (img g) = g_nx g" "ncols (img g) = g_ny g"
    "nrows ?n = g_nx g" "ncols ?n = g_ny g"
    using s np_random_randn_shape(1) [of d "g_nx g" "g_ny g"] by (simp_all add: shape_def)
  have wn: "well_shaped (amap (\<lambda>p. s * p) ?n)"
    by (simp add: well_shaped_amap np_random_randn_shape)
  have ws: "well_shaped (azip (+) (img g) (amap (\<lambda>p. s * p) ?n))"
    by (simp add: well_shaped_azip w wn s np_random_randn_shape)
  have nz: "nrows (azip (+) (img g) (amap (\<lambda>p. s * p) ?n)) = g_nx g"
    "ncols (azip (+) (img g) (amap (\<lambda>p. s * p) ?n)) = g_ny g"
    using nr by (simp_all add: azip_def)
  show ?thesis
    using assms(2,3)
    by (simp add: np_clip_def entry_amap ws nz entry_azip w wn s np_random_randn_shape nr
        np_random_randn_entry)
qed

lemma noisy_clip_consistent:
  assumes "consistent g"
  shows "consistent (g\<lparr>img := np_clip (azip (+) (img g) (amap (\<lambda>p. s * p) (np_random_randn d (g_nx g) (g_ny g)))) 0 255\<rparr>)"
  using assms
  by (simp add: consistent_def np_clip_def well_shaped_amap well_shaped_azip np_random_randn_shape)

lemma generate_square:
  assumes c: "consistent g" and sq: "g_nx g = g_ny g" and rs: "0 \<le> g_rstd g" and th: "0 \<le> g_theta g"
  shows "\<exists>g'. generate g d = (Inr (img g', img_truth g'), g') \<and> consistent g' \<and>
           g_nx g' = g_nx g \<and> g_ny g' = g_ny g \<and> g_rstd g' = g_rstd g \<and>
           g_sigma g' = g_sigma g \<and> g_theta g' = g_theta g \<and> ndisks g' = Some (d_poisson d) \<and>
           (\<forall>i < g_ny g. \<forall>j < g_nx g.
              entry (img_truth g') i j =
                (if \<exists>n < d_poisson d. in_disk (d_disk d n) i j then 1 else entry (img_truth g) i j) \<and>
              entry (img g') i j =
                min (max (painted (map (d_disk d) [0..<d_poisson d]) i j (entry (img g) i j)
                          + g_sigma g * d_randn d i j) 0) 255)"
proof -
  let ?xx = "fst (pixel_coords (g_nx g) (g_ny g))" and ?yy = "snd (pixel_coords (g_nx g) (g_ny g))"
  let ?g1 = "g\<lparr>ndisks := Some (d_poisson d)\<rparr>"
  let ?dks = "map (d_disk d) [0..<d_poisson d]"
  have c1: "consistent ?g1" "g_nx ?g1 = g_ny ?g1" "0 \<le> g_rstd ?g1"
    "?xx = fst (pixel_coords (g_nx ?g1) (g_ny ?g1))" "?yy = snd (pixel_coords (g_nx ?g1) (g_ny ?g1))"
    using c sq rs by (simp_all add: consistent_def)
  from disks_loop_square [OF c1, of ?dks]
  obtain g2 where s2: "disks_loop ?xx ?yy ?g1 ?dks = (None, g2)" and c2: "consistent g2"
    and f2: "g_nx g2 = g_nx g" "g_ny g2 = g_ny g" "g_rstd g2 = g_rstd g"
            "g_sigma g2 = g_sigma g" "g_theta g2 = g_theta g" "ndisks g2 = Some (d_poisson d)"
    and e2: "\<forall>i < g_ny g. \<forall>j < g_nx g.
              entry (img_truth g2) i j =
                (if \<exists>dk \<in> set ?dks. in_disk dk i j then 1 else entry (img_truth g) i j) \<and>
              entry (img g2) i j = painted ?dks i j (entry (img g) i j)"
    by auto
  let ?s = "azip (+) (img g2) (amap (\<lambda>p. g_sigma g2 * p) (np_random_randn d (g_nx g2) (g_ny g2)))"
  let ?g3 = "g2\<lparr>img := np_clip ?s 0 255\<rparr>"
  have gen: "generate g d = (Inr (img ?g3, img_truth ?g3), ?g3)"
    using th s2 noisy_clip [OF c2, of "g_sigma g2" d]
    by (simp add: generate_def split_beta Let_def)
  have c3: "consistent ?g3"
    by (rule noisy_clip_consistent [OF c2])
  have ex: "(\<exists>dk \<in> set ?dks. in_disk dk i j) \<longleftrightarrow> (\<exists>n < d_poisson d. in_disk (d_disk d n) i j)" for i j
    by auto
  have e3: "\<forall>i < g_ny g. \<forall>j < g_nx g.
              entry (img_truth ?g3) i j =
                (if \<exists>n < d_poisson d. in_disk (d_disk d n) i j then 1 else entry (img_truth g) i j) \<and>
              entry (img ?g3) i j =
                min (max (painted ?dks i j (entry (img g) i j) + g_sigma g * d_randn d i j) 0) 255"
  proof (intro allI impI)
    fix i j assume ij: "i < g_ny g" "j < g_nx g"
    then have ij2: "i < g_nx g2" "j < g_ny g2" using f2 sq by simp_all
    have "entry (img ?g3) i j = min (max (entry (img g2) i j + g_sigma g2 * d_randn d i j) 0) 255"
      using noisy_clip_entry [OF c2 ij2, of "g_sigma g2" d] by simp
    then show "entry (img_truth ?g3) i j =
                (if \<exists>n < d_poisson d. in_disk (d_disk d n) i j then 1 else entry (img_truth g) i j) \<and>
              entry (img ?g3) i j =
                min (max (painted ?dks i j (entry (img g) i j) + g_sigma g * d_randn d i j) 0) 255"
      using e2 ij f2 ex [of i j] by simp
  qed
  show ?thesis
    using gen c3 e3 f2 by (intro exI [of _ ?g3]) simp
qed

lemma Data_Generator_eq:
  "Data_Generator c =
     (if fst (c_size c) < 0 \<or> snd (c_size c) < 0 \<or>
         npy_max_intp < 8 * max (fst (c_size c)) 1 * max (snd (c_size c)) 1
      then Inl ValueError
      else Inr \<lparr>g_nx = nat (fst (c_size c)), g_ny = nat (snd (c_size c)), g_theta = theta c,
                g_rmean = rmean c, g_rstd = rstd c, g_vmin = vmin c, g_vmax = vmax c,
                g_sigma = sigma c,
                img = NDArray (nat (fst (c_size c))) (nat (snd (c_size c)))
                        (replicate (nat (fst (c_size c))) (replicate (nat (snd (c_size c))) 0)),
                img_truth = NDArray (nat (fst (c_size c))) (nat (snd (c_size c)))
                        (replicate (nat (fst (c_size c))) (replicate (nat (snd (c_size c))) 0)),
                ndisks = None\<rparr>)"
  by (cases "c_size c") (simp add: Data_Generator_def np_zeros_eq)

lemma Data_Generator_fresh_eq:
  assumes "Data_Generator c = Inr g"
  shows "g = fresh c"
  using assms by (simp add: fresh_def)

lemma Data_Generator_fresh:
  assumes "Data_Generator c = Inr g"
  shows "consistent g" "g_nx g = nat (fst (c_size c))" "g_ny g = nat (snd (c_size c))"
    "g_theta g = theta c" "g_rstd g = rstd c" "g_sigma g = sigma c"
    "i < g_nx g \<Longrightarrow> j < g_ny g \<Longrightarrow> entry (img g) i j = 0"
    "i < g_nx g \<Longrightarrow> j < g_ny g \<Longrightarrow> entry (img_truth g) i j = 0"
  using assms
  by (auto simp add: Data_Generator_eq consistent_def
      well_shaped_def shape_def entry_def split: if_splits)

subsection \<open>The invariant, and the call on a grid that is not square\<close>

lemma draw_disk_consistent:
  assumes "consistent g"
  shows "consistent (snd (draw_disk (fst (pixel_coords nx ny)) (snd (pixel_coords nx ny)) g dk))"
proof -
  obtain xc yc r v where dk: "dk = (xc, yc, r, v)" by (cases dk) auto
  let ?m = "disk_mask (fst (pixel_coords nx ny)) (snd (pixel_coords nx ny)) xc yc r"
  have mw: "well_shaped ?m" by (rule disk_mask_shape)
  show ?thesis
    using assms mw
    by (auto simp add: dk draw_disk_def setitem_mask_def Let_def consistent_def well_shaped_azip)
qed

lemma draw_disk_size:
  "g_nx (snd (draw_disk xx yy g dk)) = g_nx g" "g_ny (snd (draw_disk xx yy g dk)) = g_ny g"
  by (cases dk; simp add: draw_disk_def Let_def split: sum.splits)+

lemma disks_loop_consistent:
  assumes "consistent g"
  shows "consistent (snd (disks_loop (fst (pixel_coords nx ny)) (snd (pixel_coords nx ny)) g dks))"
  using assms
proof (induction dks arbitrary: g)
  case Nil
  then show ?case by simp
next
  case (Cons dk dks)
  let ?r = "draw_disk (fst (pixel_coords nx ny)) (snd (pixel_coords nx ny)) g dk"
  have c: "consistent (snd ?r)"
    by (rule draw_disk_consistent [OF Cons.prems])
  show ?case
  proof (cases "fst ?r")
    case None
    then show ?thesis
      using Cons.IH [OF c] by (simp add: split_beta)
  next
    case (Some e)
    then show ?thesis
      using c by (simp add: split_beta)
  qed
qed

lemma disks_loop_size:
  "g_nx (snd (disks_loop xx yy g dks)) = g_nx g \<and> g_ny (snd (disks_loop xx yy g dks)) = g_ny g"
proof (induction dks arbitrary: g)
  case Nil
  show ?case by simp
next
  case (Cons dk dks)
  show ?case
    using Cons.IH [of "snd (draw_disk xx yy g dk)"] draw_disk_size [of xx yy g dk]
    by (cases "fst (draw_disk xx yy g dk)") (simp_all add: split_beta)
qed

lemma generate_consistent:
  assumes "consistent g"
  shows "consistent (snd (generate g d))"
proof (cases "g_theta g < 0")
  case True
  then show ?thesis using assms by (simp add: generate_def split_beta)
next
  case False
  let ?g1 = "g\<lparr>ndisks := Some (d_poisson d)\<rparr>"
  let ?l = "disks_loop (fst (pixel_coords (g_nx g) (g_ny g))) (snd (pixel_coords (g_nx g) (g_ny g)))
              ?g1 (map (d_disk d) [0..<d_poisson d])"
  have c1: "consistent ?g1" using assms by (simp add: consistent_def)
  have c2: "consistent (snd ?l)" by (rule disks_loop_consistent [OF c1])
  show ?thesis
  proof (cases "fst ?l")
    case (Some e)
    then show ?thesis
      using False c2 by (simp add: generate_def split_beta)
  next
    case None
    then show ?thesis
      using False noisy_clip [OF c2, of "g_sigma (snd ?l)" d]
        noisy_clip_consistent [OF c2, of "g_sigma (snd ?l)" d]
      by (simp add: generate_def split_beta Let_def)
  qed
qed

lemma generate_non_square:
  assumes "consistent g" "g_nx g \<noteq> g_ny g" "0 \<le> g_rstd g" "0 \<le> g_theta g" "0 < d_poisson d"
  shows "generate g d = (Inl IndexError, g\<lparr>ndisks := Some (d_poisson d)\<rparr>)"
proof -
  let ?xx = "fst (pixel_coords (g_nx g) (g_ny g))" and ?yy = "snd (pixel_coords (g_nx g) (g_ny g))"
  let ?g1 = "g\<lparr>ndisks := Some (d_poisson d)\<rparr>"
  obtain xc yc r v where dk: "d_disk d 0 = (xc, yc, r, v)" by (cases "d_disk d 0") auto
  have u: "[0..<d_poisson d] = 0 # [1..<d_poisson d]"
    using assms(5) by (simp add: upt_conv_Cons)
  have sh: "shape (disk_mask ?xx ?yy xc yc r) \<noteq> shape (img ?g1)"
    using assms(1,2) disk_mask_shape(1) [of "g_nx g" "g_ny g" xc yc r] by (simp add: consistent_def)
  have "draw_disk ?xx ?yy ?g1 (xc, yc, r, v) = (Some IndexError, ?g1)"
    using assms(3) sh by (simp add: draw_disk_def setitem_mask_def Let_def)
  then show ?thesis
    using assms(4) by (simp add: generate_def split_beta u dk)
qed

subsection \<open>The first call on a square grid\<close>

lemma first_call_on_square_grid:
  assumes "Data_Generator c = Inr g" "fst (c_size c) = snd (c_size c)" "0 \<le> theta c" "0 \<le> rstd c"
    and "i < g_nx g" "j < g_nx g"
  shows "\<exists>im tr g'. generate g d = (Inr (im, tr), g') \<and>
           entry tr i j = (if \<exists>n < d_poisson d. in_disk (d_disk d n) i j then 1 else 0) \<and>
           entry im i j =
             min (max (painted (map (d_disk d) [0..<d_poisson d]) i j 0 + sigma c * d_randn d i j) 0) 255"
proof -
  note f = Data_Generator_fresh [OF assms(1)]
  have sq: "g_nx g = g_ny g" using f(2,3) assms(2) by simp
  have rs: "0 \<le> g_rstd g" and th: "0 \<le> g_theta g" using f(4,5) assms(3,4) by simp_all
  from generate_square [OF f(1) sq rs th, of d]
  obtain g' where s: "generate g d = (Inr (img g', img_truth g'), g')"
    and e: "\<forall>i < g_ny g. \<forall>j < g_nx g.
              entry (img_truth g') i j =
                (if \<exists>n < d_poisson d. in_disk (d_disk d n) i j then 1 else entry (img_truth g) i j) \<and>
              entry (img g') i j =
                min (max (painted (map (d_disk d) [0..<d_poisson d]) i j (entry (img g) i j)
                          + g_sigma g * d_randn d i j) 0) 255"
    by blast
  have z: "entry (img g) i j = 0" "entry (img_truth g) i j = 0"
    using f(7,8) [of i j] assms(5,6) sq by simp_all
  have "entry (img_truth g') i j = (if \<exists>n < d_poisson d. in_disk (d_disk d n) i j then 1 else 0) \<and>
        entry (img g') i j =
          min (max (painted (map (d_disk d) [0..<d_poisson d]) i j 0 + sigma c * d_randn d i j) 0) 255"
    using e assms(5,6) sq z f(6) by simp
  with s show ?thesis by blast
qed

lemma overlap_on_first_call:
  assumes "Data_Generator c = Inr g" "fst (c_size c) = snd (c_size c)" "0 \<le> theta c" "0 \<le> rstd c"
    and "sigma c = 0" "i < g_nx g" "j < g_nx g"
    and "d_poisson d = 2" "d_disk d 0 = dk1" "d_disk d 1 = dk2"
    and "0 \<le> gray dk1" "gray dk1 \<le> 255" "0 \<le> gray dk2" "gray dk2 \<le> 255"
  shows "\<exists>im tr g'. generate g d = (Inr (im, tr), g') \<and>
           entry tr i j = (if in_disk dk1 i j \<or> in_disk dk2 i j then 1 else 0) \<and>
           entry im i j =
             (if in_disk dk2 i j then gray dk2 else if in_disk dk1 i j then gray dk1 else 0)"
proof -
  from first_call_on_square_grid [OF assms(1,2,3,4,6,7), of d]
  obtain im tr g' where s: "generate g d = (Inr (im, tr), g')"
    and t: "entry tr i j = (if \<exists>n < d_poisson d. in_disk (d_disk d n) i j then 1 else 0)"
    and m: "entry im i j =
             min (max (painted (map (d_disk d) [0..<d_poisson d]) i j 0 + sigma c * d_randn d i j) 0) 255"
    by blast
  have u: "[0..<d_poisson d] = [0, 1]"
    using assms(8) by (simp add: upt_conv_Cons)
  have ex: "(\<exists>n < d_poisson d. in_disk (d_disk d n) i j) \<longleftrightarrow> in_disk dk1 i j \<or> in_disk dk2 i j"
    using assms(8,9,10) by (auto simp add: less_Suc_eq numeral_2_eq_2)
  have "entry tr i j = (if in_disk dk1 i j \<or> in_disk dk2 i j then 1 else 0)"
    using t ex by simp
  moreover have "entry im i j =
      (if in_disk dk2 i j then gray dk2 else if in_disk dk1 i j then gray dk1 else 0)"
    using m u assms(5,9,10,11,12,13,14) by simp
  ultimately show ?thesis using s by blast
qed

subsection \<open>Two instances on one store\<close>

text \<open>
  A call on the store does to the instance that the object denotes what the call of the
  value model does; it writes only into the two arrays of the object and into arrays that
  it allocates.
\<close>

lemma draw_disk_heap_sim:
  assumes "owned ob h" "draw_disk_heap xx yy ob h dk = (e, h')"
  shows "draw_disk xx yy (view h ob) dk = (e, view h' ob)"
    and "length h' = length h"
    and "\<And>r. r \<noteq> o_img ob \<Longrightarrow> r \<noteq> o_img_truth ob \<Longrightarrow> h' ! r = h ! r"
  using assms
  by (cases dk; auto simp add: draw_disk_heap_def draw_disk_def view_def owned_def Let_def
      split: if_splits sum.splits)+

lemma disks_loop_heap_sim:
  assumes "owned ob h" "disks_loop_heap xx yy ob h dks = (e, h')"
  shows "disks_loop xx yy (view h ob) dks = (e, view h' ob) \<and> length h' = length h \<and>
         (\<forall>r. r \<noteq> o_img ob \<longrightarrow> r \<noteq> o_img_truth ob \<longrightarrow> h' ! r = h ! r)"
  using assms
proof (induction dks arbitrary: h)
  case Nil
  then show ?case by simp
next
  case (Cons dk dks)
  obtain e1 h1 where s1: "draw_disk_heap xx yy ob h dk = (e1, h1)"
    by (cases "draw_disk_heap xx yy ob h dk")
  note sim = draw_disk_heap_sim [OF Cons.prems(1) s1]
  show ?case
  proof (cases e1)
    case (Some x)
    then show ?thesis using Cons.prems(2) s1 sim by auto
  next
    case None
    have o1: "owned ob h1" using Cons.prems(1) sim(2) by (simp add: owned_def)
    have l: "disks_loop_heap xx yy ob h1 dks = (e, h')"
      using Cons.prems(2) s1 None by simp
    from Cons.IH [OF o1 l] sim None show ?thesis by simp
  qed
qed

lemma generate_heap_sim:
  assumes ow: "owned ob h" and g: "generate_heap ob d h = (res, ob', h')"
  shows "generate (view h ob) d = (deref h' res, view h' ob')"
    and "owned ob' h'"
    and "length h \<le> length h'"
    and "\<And>r. r < length h \<Longrightarrow> r \<noteq> o_img ob \<Longrightarrow> r \<noteq> o_img_truth ob \<Longrightarrow> h' ! r = h ! r"
    and "o_img ob' = o_img ob \<or> length h \<le> o_img ob'"
    and "o_img_truth ob' = o_img_truth ob"
proof -
  let ?xx = "fst (pixel_coords (o_nx ob) (o_ny ob))" and ?yy = "snd (pixel_coords (o_nx ob) (o_ny ob))"
  let ?o1 = "ob\<lparr>o_ndisks := Some (d_poisson d)\<rparr>"
  let ?dks = "map (d_disk d) [0..<d_poisson d]"
  have all: "generate (view h ob) d = (deref h' res, view h' ob') \<and> owned ob' h' \<and>
    length h \<le> length h' \<and>
    (\<forall>r. r < length h \<longrightarrow> r \<noteq> o_img ob \<longrightarrow> r \<noteq> o_img_truth ob \<longrightarrow> h' ! r = h ! r) \<and>
    (o_img ob' = o_img ob \<or> length h \<le> o_img ob') \<and> o_img_truth ob' = o_img_truth ob"
  proof (cases "o_theta ob < 0")
    case True
    then show ?thesis
      using g ow by (auto simp add: generate_heap_def generate_def split_beta view_def deref_def)
  next
    case False
    obtain e h2 where l: "disks_loop_heap ?xx ?yy ?o1 h ?dks = (e, h2)"
      by (cases "disks_loop_heap ?xx ?yy ?o1 h ?dks")
    have o1: "owned ?o1 h" using ow by (simp add: owned_def)
    from disks_loop_heap_sim [OF o1 l]
    have pl: "disks_loop ?xx ?yy (view h ?o1) ?dks = (e, view h2 ?o1)"
      and len: "length h2 = length h"
      and fr: "\<forall>r. r \<noteq> o_img ob \<longrightarrow> r \<noteq> o_img_truth ob \<longrightarrow> h2 ! r = h ! r"
      by simp_all
    have v1: "view h ob\<lparr>ndisks := Some (d_poisson d)\<rparr> = view h ?o1"
      by (simp add: view_def)
    have sc: "g_nx (view h ob) = o_nx ob" "g_ny (view h ob) = o_ny ob" "g_theta (view h ob) = o_theta ob"
      by (simp_all add: view_def)
    show ?thesis
    proof (cases e)
      case (Some x)
      then show ?thesis
        using g False l pl len fr ow v1
        by (auto simp add: generate_heap_def generate_def split_beta sc deref_def owned_def)
    next
      case None
      let ?noise = "amap (\<lambda>p. o_sigma ?o1 * p) (np_random_randn d (o_nx ?o1) (o_ny ?o1))"
      have n2: "amap (\<lambda>p. g_sigma (view h2 ?o1) * p)
                  (np_random_randn d (g_nx (view h2 ?o1)) (g_ny (view h2 ?o1))) = ?noise"
        and i2: "img (view h2 ?o1) = h2 ! o_img ob"
        by (simp_all add: view_def)
      show ?thesis
      proof (cases "np_add (h2 ! o_img ob) ?noise")
        case (Inl x)
        then show ?thesis
          using g False l pl len fr ow v1 None n2 i2
          by (auto simp add: generate_heap_def generate_def split_beta sc deref_def owned_def Let_def)
      next
        case (Inr s)
        have res: "res = Inr (length h2, o_img_truth ob)" "ob' = ?o1\<lparr>o_img := length h2\<rparr>"
          "h' = h2 @ [np_clip s 0 255]"
          using g False l None Inr
          by (simp_all add: generate_heap_def split_beta Let_def alloc_def)
        have q: "o_img_truth ob < length h2" using ow len by (simp add: owned_def)
        have vw: "view h' ob' = (view h2 ?o1)\<lparr>img := np_clip s 0 255\<rparr>"
          using q by (simp add: res view_def nth_append)
        have "generate (view h ob) d = (Inr (np_clip s 0 255, h2 ! o_img_truth ob), view h' ob')"
          using False pl None Inr n2 i2 v1 vw
          by (simp add: generate_def split_beta sc Let_def) (simp add: view_def)
        moreover have "deref h' res = Inr (np_clip s 0 255, h2 ! o_img_truth ob)"
          using q by (simp add: res deref_def nth_append)
        moreover have "owned ob' h'"
          using q by (simp add: res owned_def)
        moreover have "\<forall>r. r < length h \<longrightarrow> r \<noteq> o_img ob \<longrightarrow> r \<noteq> o_img_truth ob \<longrightarrow> h' ! r = h ! r"
          using fr len by (simp add: res nth_append)
        ultimately show ?thesis
          using len by (simp add: res)
      qed
    qed
  qed
  show "generate (view h ob) d = (deref h' res, view h' ob')" "owned ob' h'"
    "length h \<le> length h'"
    "\<And>r. r < length h \<Longrightarrow> r \<noteq> o_img ob \<Longrightarrow> r \<noteq> o_img_truth ob \<Longrightarrow> h' ! r = h ! r"
    "o_img ob' = o_img ob \<or> length h \<le> o_img ob'" "o_img_truth ob' = o_img_truth ob"
    using all by blast+
qed

lemma view_frame:
  assumes "h' ! o_img ob = h ! o_img ob" "h' ! o_img_truth ob = h ! o_img_truth ob"
  shows "view h' ob = view h ob"
  using assms by (simp add: view_def)

lemma separate_step:
  assumes sep: "separate a b h" and g: "generate_heap a d h = (res, a', h')"
  shows "separate a' b h'" "view h' b = view h b"
proof -
  have oa: "owned a h" and ob: "owned b h" using sep by (simp_all add: separate_def)
  note sim = generate_heap_sim [OF oa g]
  have bi: "o_img b < length h" "o_img_truth b < length h"
    using ob by (simp_all add: owned_def)
  have d: "o_img b \<noteq> o_img a" "o_img b \<noteq> o_img_truth a"
    "o_img_truth b \<noteq> o_img a" "o_img_truth b \<noteq> o_img_truth a"
    using sep by (auto simp add: separate_def)
  show "view h' b = view h b"
    using sim(4) [OF bi(1) d(1,2)] sim(4) [OF bi(2) d(3,4)] by (rule view_frame)
  have "owned b h'"
    using ob sim(3) by (simp add: owned_def)
  moreover have "o_img a' \<noteq> o_img b \<and> o_img a' \<noteq> o_img_truth b"
    using sim(5) d bi by auto
  ultimately show "separate a' b h'"
    using sim(2,6) d by (simp add: separate_def)
qed

lemma separate_sym: "separate a b h \<Longrightarrow> separate b a h"
  by (auto simp add: separate_def)

lemma run_two_heap_calls:
  assumes "separate a b h"
  shows "calls_on First (run_two_heap (a, b) h s) = run_calls (view h a) (calls_on First s) \<and>
         calls_on Second (run_two_heap (a, b) h s) = run_calls (view h b) (calls_on Second s)"
  using assms
proof (induction s arbitrary: a b h)
  case Nil
  show ?case by (simp add: calls_on_def)
next
  case (Cons c s)
  obtain w d where c: "c = (w, d)" by (cases c)
  show ?case
  proof (cases w)
    case First
    obtain res a' h' where g: "generate_heap a d h = (res, a', h')"
      by (cases "generate_heap a d h")
    have oa: "owned a h" using Cons.prems by (simp add: separate_def)
    note sim = generate_heap_sim(1) [OF oa g]
    note st = separate_step [OF Cons.prems g]
    from Cons.IH [OF st(1)] st(2) sim show ?thesis
      using c First g by (simp add: calls_on_def)
  next
    case Second
    obtain res b' h' where g: "generate_heap b d h = (res, b', h')"
      by (cases "generate_heap b d h")
    have ob: "owned b h" using Cons.prems by (simp add: separate_def)
    note sim = generate_heap_sim(1) [OF ob g]
    note st = separate_step [OF separate_sym [OF Cons.prems] g]
    from Cons.IH [OF separate_sym [OF st(1)]] st(2) sim show ?thesis
      using c Second g by (simp add: calls_on_def)
  qed
qed

lemma Data_Generator_heap_sim:
  assumes "Data_Generator_heap c h = Inr (ob, h')"
  shows "Data_Generator c = Inr (view h' ob)"
    and "o_img ob = length h" "o_img_truth ob = Suc (length h)" "length h' = Suc (Suc (length h))"
    and "\<And>r. r < length h \<Longrightarrow> h' ! r = h ! r"
  using assms
  by (auto simp add: Data_Generator_heap_def Data_Generator_def alloc_def view_def nth_append
      split: sum.splits)

text \<open>
  The mask that a call returns is the array of the instance itself: every call of one
  instance returns the same reference, and the next call writes into that array.
\<close>

lemma returned_mask_is_shared:
  assumes "generate_heap ob d h = (Inr (p, q), ob', h')"
  shows "q = o_img_truth ob \<and> o_img_truth ob' = q \<and> p = o_img ob'"
  using assms
  by (auto simp add: generate_heap_def split_beta Let_def alloc_def
      split: if_splits option.splits sum.splits prod.splits)

lemma two_instances_example:
  "calls_on First (run_two_heap
       (\<lparr>o_nx = 2, o_ny = 2, o_theta = 5, o_rmean = 4, o_rstd = 1 / 2, o_vmin = 15,
            o_vmax = 200, o_sigma = 30, o_img = 0, o_img_truth = 1, o_ndisks = None\<rparr>,
        \<lparr>o_nx = 2, o_ny = 2, o_theta = 5, o_rmean = 4, o_rstd = 1 / 2, o_vmin = 15,
            o_vmax = 200, o_sigma = 30, o_img = 2, o_img_truth = 3, o_ndisks = None\<rparr>)
       [NDArray 2 2 [[0, 0], [0, 0]], NDArray 2 2 [[0, 0], [0, 0]],
        NDArray 2 2 [[0, 0], [0, 0]], NDArray 2 2 [[0, 0], [0, 0]]]
       [(First, draws_of [(0, 0, 1, 200)] (1 / 3)), (Second, draws_of [(0, 0, 1, 200)] (1 / 3)),
        (Second, draws_of [] (1 / 3)), (First, draws_of [] (1 / 3))]) =
     [Inr (NDArray 2 2 [[210, 10], [10, 10]], NDArray 2 2 [[1, 0], [0, 0]]),
      Inr (NDArray 2 2 [[220, 20], [20, 20]], NDArray 2 2 [[1, 0], [0, 0]])]"
  by code_simp

section \<open>The claims\<close>

text \<open>
  Claim C1: both grids are fully overwritten on every call of \<^verbatim>\<open>generate\<close>, so
  that a call returns what a first call on a fresh instance returns for the same draws.
  The code does not do this. The grids are allocated in the constructor only; a call
  paints its disks on the image that the call before left (disks, noise and all) and
  never clears \<^verbatim>\<open>img_truth\<close>. On a 2 x 2 grid without noise, a call that draws no
  disk returns, after a call that drew one disk, the image and the mask of that disk; on
  a fresh instance the same draws return two zero grids.
\<close>

theorem second_call_starts_from_first_call:
  "Data_Generator (notebook_config (2, 2) 0) = Inr (fresh (notebook_config (2, 2) 0)) \<and>
   run_calls (fresh (notebook_config (2, 2) 0)) [draws_of [(0, 0, 1, 200)] 0, draws_of [] 0] =
     [Inr (NDArray 2 2 [[200, 0], [0, 0]], NDArray 2 2 [[1, 0], [0, 0]]),
      Inr (NDArray 2 2 [[200, 0], [0, 0]], NDArray 2 2 [[1, 0], [0, 0]])] \<and>
   run_calls (fresh (notebook_config (2, 2) 0)) [draws_of [] 0] =
     [Inr (NDArray 2 2 [[0, 0], [0, 0]], NDArray 2 2 [[0, 0], [0, 0]])]"
  by code_simp

text \<open>
  Claim C2, as amended: the constructor validates nothing and never raises
  \<^verbatim>\<open>InvalidConfiguration\<close>. It fails exactly when \<^verbatim>\<open>np.zeros\<close> refuses the size, with
  the \<^verbatim>\<open>ValueError\<close> of \<^verbatim>\<open>np.zeros\<close>: when \<open>nx < 0\<close> or \<open>ny < 0\<close>, or when the
  size is beyond numpy's limit, \<open>8 * max(nx, 1) * max(ny, 1) > 2\<^sup>6\<^sup>3 - 1\<close>. For every
  other configuration, whatever \<open>theta\<close>, \<open>vmin\<close>, \<open>vmax\<close> and \<open>sigma\<close> are, it
  returns (memory permitting) an instance whose image and mask are all-zero grids of shape
  \<open>(nx, ny)\<close>.
\<close>

theorem constructor_fails_on_refused_size_only:
  "Data_Generator c =
     (if fst (c_size c) < 0 \<or> snd (c_size c) < 0 \<or>
         2 ^ 63 - 1 < 8 * max (fst (c_size c)) 1 * max (snd (c_size c)) 1
      then Inl ValueError
      else Inr \<lparr>g_nx = nat (fst (c_size c)), g_ny = nat (snd (c_size c)), g_theta = theta c,
                g_rmean = rmean c, g_rstd = rstd c, g_vmin = vmin c, g_vmax = vmax c,
                g_sigma = sigma c,
                img = NDArray (nat (fst (c_size c))) (nat (snd (c_size c)))
                        (replicate (nat (fst (c_size c))) (replicate (nat (snd (c_size c))) 0)),
                img_truth = NDArray (nat (fst (c_size c))) (nat (snd (c_size c)))
                        (replicate (nat (fst (c_size c))) (replicate (nat (snd (c_size c))) 0)),
                ndisks = None\<rparr>)"
  by (cases "c_size c") (simp add: Data_Generator_def np_zeros_eq npy_max_intp_def)

text \<open>
  The amended statement at four configurations: one that breaks all four constraints of
  the specification and is accepted, one with a negative size, and two with sizes beyond
  numpy's limit.
\<close>

theorem constructor_fails_on_refused_size_only_witness:
  "Data_Generator \<lparr>c_size = (0, 1), theta = 0, rmean = 4, rstd = 1 / 2, vmin = 200, vmax = 15, sigma = - 30\<rparr> =
     Inr \<lparr>g_nx = 0, g_ny = 1, g_theta = 0, g_rmean = 4, g_rstd = 1 / 2, g_vmin = 200,
          g_vmax = 15, g_sigma = - 30, img = NDArray 0 1 [], img_truth = NDArray 0 1 [],
          ndisks = None\<rparr> \<and>
   Data_Generator \<lparr>c_size = (- 1, 1), theta = 5, rmean = 4, rstd = 1 / 2, vmin = 15, vmax = 200, sigma = 30\<rparr> =
     Inl ValueError \<and>
   Data_Generator \<lparr>c_size = (0, 2 ^ 64), theta = 5, rmean = 4, rstd = 1 / 2, vmin = 15, vmax = 200, sigma = 30\<rparr> =
     Inl ValueError \<and>
   Data_Generator \<lparr>c_size = (2 ^ 62, 2), theta = 5, rmean = 4, rstd = 1 / 2, vmin = 15, vmax = 200, sigma = 30\<rparr> =
     Inl ValueError"
  using constructor_fails_on_refused_size_only
          [of "\<lparr>c_size = (0, 1), theta = 0, rmean = 4, rstd = 1 / 2, vmin = 200, vmax = 15, sigma = - 30\<rparr>"]
        constructor_fails_on_refused_size_only
          [of "\<lparr>c_size = (- 1, 1), theta = 5, rmean = 4, rstd = 1 / 2, vmin = 15, vmax = 200, sigma = 30\<rparr>"]
        constructor_fails_on_refused_size_only
          [of "\<lparr>c_size = (0, 2 ^ 64), theta = 5, rmean = 4, rstd = 1 / 2, vmin = 15, vmax = 200, sigma = 30\<rparr>"]
        constructor_fails_on_refused_size_only
          [of "\<lparr>c_size = (2 ^ 62, 2), theta = 5, rmean = 4, rstd = 1 / 2, vmin = 15, vmax = 200, sigma = 30\<rparr>"]
  by simp

text \<open>
  The claim as it was stated fails: a configuration with \<open>nx = 0\<close>, \<open>theta = 0\<close>,
  \<open>vmin > vmax\<close> and \<open>sigma < 0\<close> violates the constraints, and the constructor returns
  an instance.
\<close>

theorem constructor_accepts_invalid_configuration:
  "\<not> spec_valid \<lparr>c_size = (0, 1), theta = 0, rmean = 4, rstd = 1 / 2, vmin = 200, vmax = 15, sigma = - 30\<rparr> \<and>
   \<not> isl (Data_Generator \<lparr>c_size = (0, 1), theta = 0, rmean = 4, rstd = 1 / 2, vmin = 200, vmax = 15, sigma = - 30\<rparr>)"
  by code_simp

text \<open>
  Claim C3: for every valid configuration, also with \<open>nx \<noteq> ny\<close>, every call of
  \<^verbatim>\<open>generate\<close> completes and returns two grids of shape \<open>(nx, ny)\<close>. The code does
  not do this: \<^verbatim>\<open>np.meshgrid(x, y)\<close> returns arrays of shape \<open>(ny, nx)\<close>, the grids
  have shape \<open>(nx, ny)\<close>, and the first masked assignment of a call that draws a disk
  raises \<^verbatim>\<open>IndexError\<close> when the two shapes differ (lemma \<open>generate_non_square\<close>).
  With the notebook's parameters on a 2 x 3 grid and one disk:
\<close>

theorem generate_raises_on_non_square_grid:
  "spec_valid (notebook_config (2, 3) 30) \<and>
   Data_Generator (notebook_config (2, 3) 30) = Inr (fresh (notebook_config (2, 3) 30)) \<and>
   fst (generate (fresh (notebook_config (2, 3) 30)) (draws_of [(0, 0, 1, 200)] 0)) = Inl IndexError"
  by code_simp

text \<open>
  Claim C4: after any call of \<^verbatim>\<open>generate\<close>, the mask is 1 at the pixels strictly
  inside a disk drawn by that call and 0 elsewhere. The code does this on the first call
  on a square grid only (lemma \<open>first_call_on_square_grid\<close>): the mask is never
  cleared. On a 2 x 2 grid, after a call that drew the disk of centre \<open>(0, 0)\<close> and
  radius 1, a call that draws the disk of centre \<open>(1, 1)\<close> and radius 1 returns a mask
  that is 1 at row 0, column 0, a pixel outside the disk of this call.
\<close>

theorem mask_keeps_disks_of_earlier_calls:
  "Data_Generator (notebook_config (2, 2) 0) = Inr (fresh (notebook_config (2, 2) 0)) \<and>
   run_calls (fresh (notebook_config (2, 2) 0))
     [draws_of [(0, 0, 1, 200)] 0, draws_of [(1, 1, 1, 100)] 0] =
     [Inr (NDArray 2 2 [[200, 0], [0, 0]], NDArray 2 2 [[1, 0], [0, 0]]),
      Inr (NDArray 2 2 [[200, 0], [0, 100]], NDArray 2 2 [[1, 0], [0, 1]])] \<and>
   \<not> in_disk (1, 1, 1, 100) 0 0"
  by code_simp

text \<open>
  Claim C5: every pixel of the image that \<^verbatim>\<open>generate\<close> returns lies in
  \<open>[0, 255]\<close>, whatever the instance and the draws are.
\<close>

theorem image_in_range:
  assumes "generate g d = (Inr (im, tr), g')" "row \<in> set (cells im)" "p \<in> set row"
  shows "0 \<le> p \<and> p \<le> 255"
proof -
  from assms(1) obtain s where "im = np_clip s 0 255"
    by (auto simp add: generate_def Let_def split_beta split: prod.splits option.splits sum.splits if_splits)
  with assms(2,3) show ?thesis
    by (auto simp add: np_clip_def amap_def)
qed

text \<open>
  A call whose noise takes a pixel to 300 before the clipping.
\<close>

theorem image_in_range_witness:
  "generate (fresh (notebook_config (2, 2) 30)) (draws_of [(0, 0, 1, 200)] (10 / 3)) =
     (Inr (NDArray 2 2 [[255, 100], [100, 100]], NDArray 2 2 [[1, 0], [0, 0]]),
      snd (generate (fresh (notebook_config (2, 2) 30)) (draws_of [(0, 0, 1, 200)] (10 / 3)))) \<and>
   [255, 100] \<in> set (cells (NDArray 2 2 [[255, 100], [100, 100::real]])) \<and>
   (255::real) \<in> set [255, 100] \<and> (0::real) \<le> 255 \<and> (255::real) \<le> 255"
proof -
  have h1: "generate (fresh (notebook_config (2, 2) 30)) (draws_of [(0, 0, 1, 200)] (10 / 3)) =
     (Inr (NDArray 2 2 [[255, 100], [100, 100]], NDArray 2 2 [[1, 0], [0, 0]]),
      snd (generate (fresh (notebook_config (2, 2) 30)) (draws_of [(0, 0, 1, 200)] (10 / 3))))"
    by code_simp
  have h2: "[255, 100] \<in> set (cells (NDArray 2 2 [[255, 100], [100, 100::real]]))" by simp
  have h3: "(255::real) \<in> set [255, 100]" by simp
  from image_in_range [OF h1 h2 h3] h1 h2 h3 show ?thesis by blast
qed

text \<open>
  Claim C6: a call of \<^verbatim>\<open>generate\<close> that draws no disk returns an all-zero mask and,
  as image, the clipped noise. The code does this on the first call of an instance only
  (lemma \<open>first_call_on_square_grid\<close>). With the notebook's parameters on a 2 x 2
  grid and a noise of 10 at every pixel, a call without disks returns, after a call that
  drew one disk, a mask with a 1 and an image that differs from the clipped noise at every
  pixel.
\<close>

theorem zero_disk_call_on_used_instance:
  "Data_Generator (notebook_config (2, 2) 30) = Inr (fresh (notebook_config (2, 2) 30)) \<and>
   run_calls (fresh (notebook_config (2, 2) 30))
     [draws_of [(0, 0, 1, 200)] (1 / 3), draws_of [] (1 / 3)] =
     [Inr (NDArray 2 2 [[210, 10], [10, 10]], NDArray 2 2 [[1, 0], [0, 0]]),
      Inr (NDArray 2 2 [[220, 20], [20, 20]], NDArray 2 2 [[1, 0], [0, 0]])] \<and>
   d_poisson (draws_of [] (1 / 3)) = 0 \<and>
   np_clip (amap (\<lambda>p. 30 * p) (np_random_randn (draws_of [] (1 / 3)) 2 2)) 0 255 =
     NDArray 2 2 [[10, 10], [10, 10]]"
  by code_simp

text \<open>
  Claim C7: of two overlapping disks drawn in sequence, without noise, the second gives the
  image its value on the intersection, and the mask is 1 exactly on the union. The code
  does this on the first call on a square grid (lemma \<open>overlap_on_first_call\<close>). On an
  instance that has been used, the mask is also 1 outside the union, where an earlier call
  drew a disk: below, at row 2, column 2 of a 3 x 3 grid. On a 3 x 2 grid the call raises
  \<^verbatim>\<open>IndexError\<close> at its first disk.
\<close>

theorem overlap_on_used_or_non_square_instance:
  "Data_Generator (notebook_config (3, 3) 0) = Inr (fresh (notebook_config (3, 3) 0)) \<and>
   run_calls (fresh (notebook_config (3, 3) 0))
     [draws_of [(2, 2, 1, 200)] 0, draws_of [(0, 0, 3 / 2, 100), (1, 0, 6 / 5, 50)] 0] =
     [Inr (NDArray 3 3 [[0, 0, 0], [0, 0, 0], [0, 0, 200]],
           NDArray 3 3 [[0, 0, 0], [0, 0, 0], [0, 0, 1]]),
      Inr (NDArray 3 3 [[50, 50, 50], [100, 50, 0], [0, 0, 200]],
           NDArray 3 3 [[1, 1, 1], [1, 1, 0], [0, 0, 1]])] \<and>
   \<not> in_disk (0, 0, 3 / 2, 100) 2 2 \<and> \<not> in_disk (1, 0, 6 / 5, 50) 2 2 \<and>
   Data_Generator (notebook_config (3, 2) 0) = Inr (fresh (notebook_config (3, 2) 0)) \<and>
   run_calls (fresh (notebook_config (3, 2) 0))
     [draws_of [(0, 0, 3 / 2, 100), (1, 0, 6 / 5, 50)] 0] = [Inl IndexError]"
  by code_simp

text \<open>
  Claim C8: the pixel \<open>(x, y)\<close>, stored at row \<open>y\<close> and column \<open>x\<close> of the boolean
  array, belongs to the disk if and only if \<open>(x - xc)\<^sup>2 + (y - yc)\<^sup>2 < r\<^sup>2\<close>; the radius
  \<open>- r\<close> gives the same boolean array and the same update of the instance as the radius
  \<open>r\<close>; the radius 0 covers no pixel.
\<close>

theorem disk_membership:
  assumes "i < ny" "j < nx"
  shows "(entry (disk_mask (fst (pixel_coords nx ny)) (snd (pixel_coords nx ny)) xc yc r) i j
            \<longleftrightarrow> (real j - xc)\<^sup>2 + (real i - yc)\<^sup>2 < r\<^sup>2) \<and>
         disk_mask xx yy xc yc (- r) = disk_mask xx yy xc yc r \<and>
         draw_disk xx yy g (xc, yc, - r, v) = draw_disk xx yy g (xc, yc, r, v) \<and>
         \<not> entry (disk_mask (fst (pixel_coords nx ny)) (snd (pixel_coords nx ny)) xc yc 0) i j"
proof -
  have a: "entry (disk_mask (fst (pixel_coords nx ny)) (snd (pixel_coords nx ny)) xc yc r) i j
            \<longleftrightarrow> (real j - xc)\<^sup>2 + (real i - yc)\<^sup>2 < r\<^sup>2" for r
    using disk_mask_entry [OF assms, of xc yc r 0] by (simp add: in_disk_def)
  have b: "disk_mask xx yy xc yc (- r) = disk_mask xx yy xc yc r"
    by (simp add: disk_mask_def)
  have c: "draw_disk xx yy g (xc, yc, - r, v) = draw_disk xx yy g (xc, yc, r, v)"
    by (simp add: draw_disk_def b)
  have d: "\<not> (real j - xc)\<^sup>2 + (real i - yc)\<^sup>2 < 0\<^sup>2"
    by (simp add: not_less)
  show ?thesis
    using a [of r] a [of 0] b c d by blast
qed

text \<open>
  The pixel \<open>x = 1\<close>, \<open>y = 2\<close> of a 2 x 3 grid and the disk of centre
  \<open>(1, 3/2)\<close> and radius 1.
\<close>

theorem disk_membership_witness:
  "(2::nat) < 3 \<and> (1::nat) < 2 \<and>
   ((entry (disk_mask (fst (pixel_coords 2 3)) (snd (pixel_coords 2 3)) 1 (3 / 2) 1) 2 1
            \<longleftrightarrow> (real 1 - 1)\<^sup>2 + (real 2 - 3 / 2)\<^sup>2 < 1\<^sup>2) \<and>
         disk_mask (fst (pixel_coords 2 3)) (snd (pixel_coords 2 3)) 1 (3 / 2) (- 1) =
         disk_mask (fst (pixel_coords 2 3)) (snd (pixel_coords 2 3)) 1 (3 / 2) 1 \<and>
         draw_disk (fst (pixel_coords 2 3)) (snd (pixel_coords 2 3)) (fresh (notebook_config (2, 3) 30)) (1, 3 / 2, - 1, 200) =
         draw_disk (fst (pixel_coords 2 3)) (snd (pixel_coords 2 3)) (fresh (notebook_config (2, 3) 30)) (1, 3 / 2, 1, 200) \<and>
         \<not> entry (disk_mask (fst (pixel_coords 2 3)) (snd (pixel_coords 2 3)) 1 (3 / 2) 0) 2 1)"
proof -
  have h1: "(2::nat) < 3" and h2: "(1::nat) < 2" by simp_all
  from disk_membership [OF h1 h2, of 1 "3 / 2" 1 "fst (pixel_coords 2 3)" "snd (pixel_coords 2 3)"
      "fresh (notebook_config (2, 3) 30)" 200] h1 h2
  show ?thesis by blast
qed

text \<open>
  Claim C9: two instances constructed with the same configuration, whose calls obtain the
  same sequences of draws, return the same pairs from corresponding calls. The two
  instances are constructed one after the other on one store and the program interleaves
  their calls in any order; the pairs are compared as the arrays that the returned
  references denote when the call returns. A call writes only into the arrays of its own
  instance, so the calls on one instance do not change what the other returns.
\<close>

theorem generate_deterministic:
  assumes "Data_Generator_heap c h0 = Inr (a, h1)" "Data_Generator_heap c h1 = Inr (b, h2)"
    and "calls_on First s = calls_on Second s"
  shows "calls_on First (run_two_heap (a, b) h2 s) = calls_on Second (run_two_heap (a, b) h2 s)"
proof -
  note ca = Data_Generator_heap_sim [OF assms(1)]
  note cb = Data_Generator_heap_sim [OF assms(2)]
  have va: "view h2 a = view h1 a"
    using cb(5) [of "o_img a"] cb(5) [of "o_img_truth a"] ca(2,3,4) by (intro view_frame) simp_all
  have same: "view h2 a = view h2 b"
    using ca(1) cb(1) va by simp
  have sep: "separate a b h2"
    using ca(2,3,4) cb(2,3,4) by (simp add: separate_def owned_def)
  from run_two_heap_calls [OF sep, of s] same assms(3) show ?thesis by simp
qed

text \<open>
  Two instances on an empty store, with the calls interleaved.
\<close>

theorem generate_deterministic_witness:
  "Data_Generator_heap (notebook_config (2, 2) 30) [] =
     Inr (\<lparr>o_nx = 2, o_ny = 2, o_theta = 5, o_rmean = 4, o_rstd = 1 / 2, o_vmin = 15,
            o_vmax = 200, o_sigma = 30, o_img = 0, o_img_truth = 1, o_ndisks = None\<rparr>,
          [NDArray 2 2 [[0, 0], [0, 0]], NDArray 2 2 [[0, 0], [0, 0]]]) \<and>
   Data_Generator_heap (notebook_config (2, 2) 30)
       [NDArray 2 2 [[0, 0], [0, 0]], NDArray 2 2 [[0, 0], [0, 0]]] =
     Inr (\<lparr>o_nx = 2, o_ny = 2, o_theta = 5, o_rmean = 4, o_rstd = 1 / 2, o_vmin = 15,
            o_vmax = 200, o_sigma = 30, o_img = 2, o_img_truth = 3, o_ndisks = None\<rparr>,
          [NDArray 2 2 [[0, 0], [0, 0]], NDArray 2 2 [[0, 0], [0, 0]],
           NDArray 2 2 [[0, 0], [0, 0]], NDArray 2 2 [[0, 0], [0, 0]]]) \<and>
   calls_on First [(First, draws_of [(0, 0, 1, 200)] (1 / 3)), (Second, draws_of [(0, 0, 1, 200)] (1 / 3)),
                   (Second, draws_of [] (1 / 3)), (First, draws_of [] (1 / 3))] =
   calls_on Second [(First, draws_of [(0, 0, 1, 200)] (1 / 3)), (Second, draws_of [(0, 0, 1, 200)] (1 / 3)),
                   (Second, draws_of [] (1 / 3)), (First, draws_of [] (1 / 3))] \<and>
   calls_on First (run_two_heap
       (\<lparr>o_nx = 2, o_ny = 2, o_theta = 5, o_rmean = 4, o_rstd = 1 / 2, o_vmin = 15,
            o_vmax = 200, o_sigma = 30, o_img = 0, o_img_truth = 1, o_ndisks = None\<rparr>,
        \<lparr>o_nx = 2, o_ny = 2, o_theta = 5, o_rmean = 4, o_rstd = 1 / 2, o_vmin = 15,
            o_vmax = 200, o_sigma = 30, o_img = 2, o_img_truth = 3, o_ndisks = None\<rparr>)
       [NDArray 2 2 [[0, 0], [0, 0]], NDArray 2 2 [[0, 0], [0, 0]],
        NDArray 2 2 [[0, 0], [0, 0]], NDArray 2 2 [[0, 0], [0, 0]]]
       [(First, draws_of [(0, 0, 1, 200)] (1 / 3)), (Second, draws_of [(0, 0, 1, 200)] (1 / 3)),
        (Second, draws_of [] (1 / 3)), (First, draws_of [] (1 / 3))]) =
   calls_on Second (run_two_heap
       (\<lparr>o_nx = 2, o_ny = 2, o_theta = 5, o_rmean = 4, o_rstd = 1 / 2, o_vmin = 15,
            o_vmax = 200, o_sigma = 30, o_img = 0, o_img_truth = 1, o_ndisks = None\<rparr>,
        \<lparr>o_nx = 2, o_ny = 2, o_theta = 5, o_rmean = 4, o_rstd = 1 / 2, o_vmin = 15,
            o_vmax = 200, o_sigma = 30, o_img = 2, o_img_truth = 3, o_ndisks = None\<rparr>)
       [NDArray 2 2 [[0, 0], [0, 0]], NDArray 2 2 [[0, 0], [0, 0]],
        NDArray 2 2 [[0, 0], [0, 0]], NDArray 2 2 [[0, 0], [0, 0]]]
       [(First, draws_of [(0, 0, 1, 200)] (1 / 3)), (Second, draws_of [(0, 0, 1, 200)] (1 / 3)),
        (Second, draws_of [] (1 / 3)), (First, draws_of [] (1 / 3))])"
proof -
  let ?z = "NDArray 2 2 [[0, 0], [0, 0::real]]"
  let ?a = "\<lparr>o_nx = 2, o_ny = 2, o_theta = 5, o_rmean = 4, o_rstd = 1 / 2, o_vmin = 15,
            o_vmax = 200, o_sigma = 30, o_img = 0, o_img_truth = 1, o_ndisks = None\<rparr>"
  let ?b = "\<lparr>o_nx = 2, o_ny = 2, o_theta = 5, o_rmean = 4, o_rstd = 1 / 2, o_vmin = 15,
            o_vmax = 200, o_sigma = 30, o_img = 2, o_img_truth = 3, o_ndisks = None\<rparr>"
  let ?s = "[(First, draws_of [(0, 0, 1, 200)] (1 / 3)), (Second, draws_of [(0, 0, 1, 200)] (1 / 3)),
            (Second, draws_of [] (1 / 3)), (First, draws_of [] (1 / 3))]"
  have h1: "Data_Generator_heap (notebook_config (2, 2) 30) [] = Inr (?a, [?z, ?z])"
    by code_simp
  have h2: "Data_Generator_heap (notebook_config (2, 2) 30) [?z, ?z] = Inr (?b, [?z, ?z, ?z, ?z])"
    by code_simp
  have h3: "calls_on First ?s = calls_on Second ?s"
    by (simp add: calls_on_def)
  from generate_deterministic [OF h1 h2 h3] h1 h2 h3 show ?thesis by blast
qed

text \<open>
  Claim C10: on a square grid the first axis of the grids is \<open>y\<close> and the second is
  \<open>x\<close>. A disk of centre \<open>(xc, yc)\<close> and radius \<open>r\<close> writes the entry at row \<open>i\<close>,
  column \<open>j\<close> of both grids if and only if \<open>(j - xc)\<^sup>2 + (i - yc)\<^sup>2 < r\<^sup>2\<close>, and leaves
  it as it was otherwise; the grids returned by a call that draws this one disk show it
  at the same entries.
\<close>

theorem row_is_y_column_is_x:
  assumes "consistent g" "g_nx g = g_ny g" "0 \<le> g_rstd g" "0 \<le> g_theta g"
    and "i < g_ny g" "j < g_nx g" "d_poisson d = 1" "d_disk d 0 = (xc, yc, r, v)"
  shows "(\<exists>g'. draw_disk (fst (pixel_coords (g_nx g) (g_ny g))) (snd (pixel_coords (g_nx g) (g_ny g)))
                 g (xc, yc, r, v) = (None, g') \<and>
           entry (img_truth g') i j =
             (if (real j - xc)\<^sup>2 + (real i - yc)\<^sup>2 < r\<^sup>2 then 1 else entry (img_truth g) i j) \<and>
           entry (img g') i j =
             (if (real j - xc)\<^sup>2 + (real i - yc)\<^sup>2 < r\<^sup>2 then v else entry (img g) i j)) \<and>
         (\<exists>im tr g'. generate g d = (Inr (im, tr), g') \<and>
           entry tr i j =
             (if (real j - xc)\<^sup>2 + (real i - yc)\<^sup>2 < r\<^sup>2 then 1 else entry (img_truth g) i j) \<and>
           entry im i j =
             min (max ((if (real j - xc)\<^sup>2 + (real i - yc)\<^sup>2 < r\<^sup>2 then v else entry (img g) i j)
                       + g_sigma g * d_randn d i j) 0) 255)"
proof -
  from draw_disk_square_props [OF assms(1,2,3) refl refl, of "(xc, yc, r, v)"]
  obtain g' where s: "draw_disk (fst (pixel_coords (g_nx g) (g_ny g)))
        (snd (pixel_coords (g_nx g) (g_ny g))) g (xc, yc, r, v) = (None, g')"
    and e: "\<forall>i < g_ny g. \<forall>j < g_nx g.
              entry (img_truth g') i j =
                (if in_disk (xc, yc, r, v) i j then 1 else entry (img_truth g) i j) \<and>
              entry (img g') i j =
                (if in_disk (xc, yc, r, v) i j then gray (xc, yc, r, v) else entry (img g) i j)"
    by blast
  from e assms(5,6) have
    "entry (img_truth g') i j =
       (if (real j - xc)\<^sup>2 + (real i - yc)\<^sup>2 < r\<^sup>2 then 1 else entry (img_truth g) i j) \<and>
     entry (img g') i j =
       (if (real j - xc)\<^sup>2 + (real i - yc)\<^sup>2 < r\<^sup>2 then v else entry (img g) i j)"
    by (simp add: in_disk_def gray_def)
  with s have first: "\<exists>g'. draw_disk (fst (pixel_coords (g_nx g) (g_ny g))) (snd (pixel_coords (g_nx g) (g_ny g)))
                 g (xc, yc, r, v) = (None, g') \<and>
           entry (img_truth g') i j =
             (if (real j - xc)\<^sup>2 + (real i - yc)\<^sup>2 < r\<^sup>2 then 1 else entry (img_truth g) i j) \<and>
           entry (img g') i j =
             (if (real j - xc)\<^sup>2 + (real i - yc)\<^sup>2 < r\<^sup>2 then v else entry (img g) i j)"
    by blast
  from generate_square [OF assms(1,2,3,4), of d]
  obtain g2 where s2: "generate g d = (Inr (img g2, img_truth g2), g2)"
    and e2: "\<forall>i < g_ny g. \<forall>j < g_nx g.
              entry (img_truth g2) i j =
                (if \<exists>n < d_poisson d. in_disk (d_disk d n) i j then 1 else entry (img_truth g) i j) \<and>
              entry (img g2) i j =
                min (max (painted (map (d_disk d) [0..<d_poisson d]) i j (entry (img g) i j)
                          + g_sigma g * d_randn d i j) 0) 255"
    by blast
  have one: "(\<exists>n < d_poisson d. in_disk (d_disk d n) i j) \<longleftrightarrow> in_disk (xc, yc, r, v) i j"
    using assms(7,8) by simp
  have "entry (img_truth g2) i j =
             (if (real j - xc)\<^sup>2 + (real i - yc)\<^sup>2 < r\<^sup>2 then 1 else entry (img_truth g) i j) \<and>
        entry (img g2) i j =
             min (max ((if (real j - xc)\<^sup>2 + (real i - yc)\<^sup>2 < r\<^sup>2 then v else entry (img g) i j)
                       + g_sigma g * d_randn d i j) 0) 255"
    using e2 assms(5,6,7,8) one by (simp add: in_disk_def gray_def)
  with s2 have second: "\<exists>im tr g'. generate g d = (Inr (im, tr), g') \<and>
           entry tr i j =
             (if (real j - xc)\<^sup>2 + (real i - yc)\<^sup>2 < r\<^sup>2 then 1 else entry (img_truth g) i j) \<and>
           entry im i j =
             min (max ((if (real j - xc)\<^sup>2 + (real i - yc)\<^sup>2 < r\<^sup>2 then v else entry (img g) i j)
                       + g_sigma g * d_randn d i j) 0) 255"
    by blast
  from first second show ?thesis by (rule conjI)
qed

text \<open>
  The disk of centre \<open>xc = 1\<close>, \<open>yc = 2\<close> on a fresh 3 x 3 grid: the entry at row 2,
  column 1 is set.
\<close>

theorem row_is_y_column_is_x_witness:
  "consistent (fresh (notebook_config (3, 3) 0)) \<and>
   g_nx (fresh (notebook_config (3, 3) 0)) = g_ny (fresh (notebook_config (3, 3) 0)) \<and>
   0 \<le> g_rstd (fresh (notebook_config (3, 3) 0)) \<and> 0 \<le> g_theta (fresh (notebook_config (3, 3) 0)) \<and>
   2 < g_ny (fresh (notebook_config (3, 3) 0)) \<and> 1 < g_nx (fresh (notebook_config (3, 3) 0)) \<and>
   d_poisson (draws_of [(1, 2, 1, 200)] 0) = 1 \<and> d_disk (draws_of [(1, 2, 1, 200)] 0) 0 = (1, 2, 1, 200) \<and>
   (\<exists>im tr g'. generate (fresh (notebook_config (3, 3) 0)) (draws_of [(1, 2, 1, 200)] 0) = (Inr (im, tr), g') \<and>
      entry tr 2 1 = 1 \<and> entry im 2 1 = 200)"
proof -
  let ?g = "fresh (notebook_config (3, 3) 0)" and ?d = "draws_of [(1, 2, 1, 200)] 0"
  have h1: "consistent ?g" by code_simp
  have h2: "g_nx ?g = g_ny ?g" by code_simp
  have h3: "0 \<le> g_rstd ?g" by code_simp
  have h4: "0 \<le> g_theta ?g" by code_simp
  have h5: "2 < g_ny ?g" by code_simp
  have h6: "1 < g_nx ?g" by code_simp
  have h7: "d_poisson ?d = 1" by (simp add: draws_of_def)
  have h8: "d_disk ?d 0 = (1, 2, 1, 200)" by (simp add: draws_of_def)
  have s: "g_sigma ?g = 0" by code_simp
  from row_is_y_column_is_x [OF h1 h2 h3 h4 h5 h6 h7 h8]
  obtain im tr g' where "generate ?g ?d = (Inr (im, tr), g')" "entry tr 2 1 = 1" "entry im 2 1 = 200"
    by (auto simp add: s)
  then have "\<exists>im tr g'. generate ?g ?d = (Inr (im, tr), g') \<and> entry tr 2 1 = 1 \<and> entry im 2 1 = 200"
    by blast
  with h1 h2 h3 h4 h5 h6 h7 h8 show ?thesis by blast
qed

end
